theory Spec2Isabelle
  imports Main "HOL-Library.Sublist"
begin

section \<open>Regular expressions\<close>

text \<open>
  The plugin classifies source paths with the literal \<^verbatim>\<open>/\.(sa|sc|c)ss$/\<close> and tests
  file names with the \<^verbatim>\<open>RegExp\<close> object of its options. The text of a literal is a term
  of \<open>rx\<close>; \<open>rx_match r s\<close> lists the remainders of \<open>s\<close> after every way \<open>r\<close> can
  match a prefix of \<open>s\<close>, in the order in which backtracking finds them. \<open>Eos\<close> is
  \<^verbatim>\<open>$\<close> without the \<^verbatim>\<open>m\<close> flag: it holds at the end of the input only.
\<close>

datatype rx = Eps | Chr char | Seq rx rx | Alt rx rx | Eos

fun rx_match :: "rx \<Rightarrow> string \<Rightarrow> string list" where
  "rx_match Eps s = [s]"
| "rx_match (Chr c) [] = []"
| "rx_match (Chr c) (x # xs) = (if x = c then [xs] else [])"
| "rx_match (Seq a b) s = concat (map (rx_match b) (rx_match a s))"
| "rx_match (Alt a b) s = rx_match a s @ rx_match b s"
| "rx_match Eos s = (if s = [] then [[]] else [])"

text \<open>A run of literal characters.\<close>

fun str :: "string \<Rightarrow> rx" where
  "str [] = Eps"
| "str (c # cs) = Seq (Chr c) (str cs)"

text \<open>
  \<^verbatim>\<open>test\<close> of a literal without the \<^verbatim>\<open>g\<close> and \<^verbatim>\<open>y\<close> flags, as the module's own
  \<^verbatim>\<open>styleRegex\<close> is: the pattern is not anchored at the start, so a match may begin at
  any position of the input, and the call keeps no state between inputs.
\<close>

definition RegExp_test :: "rx \<Rightarrow> string \<Rightarrow> bool" where
  "RegExp_test r s = list_ex (\<lambda>t. rx_match r t \<noteq> []) (suffixes s)"

text \<open>
  A \<^verbatim>\<open>RegExp\<close> object as an option may hold it: \<open>matcher R S i\<close> is the end index of the
  match of the pattern that starts at index \<open>i\<close> of the input \<open>S\<close>, if there is one;
  \<open>global\<close> and \<open>sticky\<close> are the \<^verbatim>\<open>g\<close> and \<^verbatim>\<open>y\<close> flags. \<^verbatim>\<open>test\<close> returns whether
  the pattern matches and leaves the object with its new \<open>lastIndex\<close>: with one of the two
  flags the search starts at \<open>lastIndex\<close> (with \<^verbatim>\<open>y\<close> it tries that index only), a match
  sets \<open>lastIndex\<close> to its end and a failure sets it to \<open>0\<close>; without them the search
  starts at \<open>0\<close> and \<open>lastIndex\<close> is not touched.
\<close>

record RegExp =
  matcher :: "string \<Rightarrow> nat \<Rightarrow> nat option"
  global :: bool
  sticky :: bool
  lastIndex :: nat

fun firstMatch :: "(nat \<Rightarrow> nat option) \<Rightarrow> nat list \<Rightarrow> nat option" where
  "firstMatch m [] = None"
| "firstMatch m (i # rest) = (case m i of Some e \<Rightarrow> Some e | None \<Rightarrow> firstMatch m rest)"

definition RegExp_prototype_test :: "RegExp \<Rightarrow> string \<Rightarrow> bool \<times> RegExp" where
  "RegExp_prototype_test R S =
     (let stateful = (global R \<or> sticky R);
          start = (if stateful then lastIndex R else 0);
          failure = (False, if stateful then R\<lparr>lastIndex := 0\<rparr> else R)
      in if length S < start then failure
         else (case firstMatch (matcher R S)
                      (if sticky R then [start] else [start..<Suc (length S)]) of
                 None \<Rightarrow> failure
               | Some e \<Rightarrow> (True, if stateful then R\<lparr>lastIndex := e\<rparr> else R)))"

text \<open>The object a literal \<^verbatim>\<open>/r/\<close> with the given \<^verbatim>\<open>g\<close> and \<^verbatim>\<open>y\<close> flags evaluates to.\<close>

definition matcherOf :: "rx \<Rightarrow> string \<Rightarrow> nat \<Rightarrow> nat option" where
  "matcherOf r S i =
     (case rx_match r (drop i S) of [] \<Rightarrow> None | rest # _ \<Rightarrow> Some (length S - length rest))"

definition RegExp_literal :: "rx \<Rightarrow> bool \<Rightarrow> bool \<Rightarrow> RegExp" where
  "RegExp_literal r g y = \<lparr>matcher = matcherOf r, global = g, sticky = y, lastIndex = 0\<rparr>"

text \<open>\<^verbatim>\<open>const styleRegex = /\.(sa|sc|c)ss$/\<close>\<close>

definition styleRegex :: rx where
  "styleRegex =
     Seq (str ''.'') (Seq (Alt (str ''sa'') (Alt (str ''sc'') (str ''c''))) (Seq (str ''ss'') Eos))"

text \<open>
  A field that a manifest record may lack is an \<open>option\<close>; \<open>None\<close> is JavaScript's
  \<^verbatim>\<open>undefined\<close>. \<^verbatim>\<open>test\<close> converts its argument to a string first, and
  \<^verbatim>\<open>undefined\<close> becomes the text \<^verbatim>\<open>undefined\<close>.
\<close>

fun ToString :: "string option \<Rightarrow> string" where
  "ToString None = ''undefined''"
| "ToString (Some s) = s"

text \<open>\<^verbatim>\<open>const isStyles = (src) => styleRegex.test(src)\<close>\<close>

definition isStyles :: "string option \<Rightarrow> bool" where
  "isStyles src = RegExp_test styleRegex (ToString src)"

section \<open>JavaScript strings\<close>

text \<open>
  A string is a list of characters (one \<open>char\<close> per code unit; paths are taken to
  be ASCII). \<^verbatim>\<open>lastIndexOf\<close> gives \<open>-1\<close> when the character does not occur.
  \<^verbatim>\<open>substring\<close> clamps both indices to the string and, when the start index
  is larger than the end index, swaps the two.
\<close>

fun lastIndexOf :: "string \<Rightarrow> char \<Rightarrow> int" where
  "lastIndexOf [] c = - 1"
| "lastIndexOf (x # xs) c =
     (let r = lastIndexOf xs c in if 0 \<le> r then r + 1 else if x = c then 0 else - 1)"

definition substring :: "string \<Rightarrow> int \<Rightarrow> int \<Rightarrow> string" where
  "substring s indexStart indexEnd =
     (let len = int (length s);
          a = max 0 (min indexStart len);
          b = max 0 (min indexEnd len);
          from = min a b;
          to = max a b
      in take (nat (to - from)) (drop (nat from) s))"

definition startsWith :: "string \<Rightarrow> string \<Rightarrow> bool" where
  "startsWith s p = prefix p s"

definition endsWith :: "string \<Rightarrow> string \<Rightarrow> bool" where
  "endsWith s p = suffix p s"

text \<open>\<^verbatim>\<open>Array.prototype.join\<close>; an \<^verbatim>\<open>undefined\<close> element is joined as the empty string.\<close>

fun join :: "string \<Rightarrow> string option list \<Rightarrow> string" where
  "join sep [] = []"
| "join sep [x] = (case x of None \<Rightarrow> [] | Some s \<Rightarrow> s)"
| "join sep (x # y # ys) = (case x of None \<Rightarrow> [] | Some s \<Rightarrow> s) @ sep @ join sep (y # ys)"

text \<open>
  A \<^verbatim>\<open>Set\<close> iterates in insertion order and \<^verbatim>\<open>add\<close> of a member changes
  nothing: a list without repetition, extended at its end.
\<close>

definition Set_add :: "'a \<Rightarrow> 'a list \<Rightarrow> 'a list" where
  "Set_add x s = (if x \<in> set s then s else s @ [x])"

section \<open>The manifest and the resolution of an entry\<close>

text \<open>
  One record of the bundler's manifest, as the callbacks destructure it (\<open>file'\<close> and
  \<open>imports'\<close> are the fields \<^verbatim>\<open>file\<close> and \<^verbatim>\<open>imports\<close>). \<open>css\<close> and
  \<open>imports'\<close> default to the empty list when the record lacks them. The manifest is
  the parsed object in its iteration order, keys distinct; \<^verbatim>\<open>manifest[imp]\<close> is
  \<open>map_of\<close>: an import key is a key of the manifest or names nothing (the bundler writes
  no import key such as \<^verbatim>\<open>constructor\<close>, which every object inherits).
\<close>

record ManifestEntry =
  isEntry :: "bool option"
  name :: "string option"
  src :: "string option"
  file' :: "string option"
  css :: "string list"
  imports' :: "string list"

type_synonym manifest = "(string \<times> ManifestEntry) list"

datatype error = TypeError | RangeError | SyntaxError | ENOENT | EISDIR

text \<open>
  \<^verbatim>\<open>
  const handleEntryImports = ({ src, file, css = [], imports = [] }) => {
    if (isStyles(src)) {
      styleFiles.add(file)
    } else {
      css.length > 0 && css.forEach(cssFile => { styleFiles.add(cssFile) })
      imports.forEach(imp => { handleEntryImports(manifest[imp]) })
    }
  }\<close>
  The function updates the set \<open>styleFiles\<close> of the enclosing callback: the set is
  passed in and returned. Destructuring \<^verbatim>\<open>undefined\<close> (a key that the manifest lacks)
  throws a \<^verbatim>\<open>TypeError\<close>. The first argument is the number of nested calls the engine's
  stack still admits; when it is used up the call throws a \<^verbatim>\<open>RangeError\<close>, which is what
  a cyclic manifest ends in.
\<close>

fun handleEntryImports ::
    "nat \<Rightarrow> manifest \<Rightarrow> ManifestEntry option \<Rightarrow> string option list \<Rightarrow> error + string option list"
  and forEachImport ::
    "nat \<Rightarrow> manifest \<Rightarrow> string list \<Rightarrow> string option list \<Rightarrow> error + string option list"
where
  "handleEntryImports 0 manifest node styleFiles = Inl RangeError"
| "handleEntryImports (Suc depth) manifest None styleFiles = Inl TypeError"
| "handleEntryImports (Suc depth) manifest (Some node) styleFiles =
     (if isStyles (src node) then Inr (Set_add (file' node) styleFiles)
      else forEachImport depth manifest (imports' node)
             (fold (\<lambda>cssFile. Set_add (Some cssFile)) (css node) styleFiles))"
| "forEachImport depth manifest [] styleFiles = Inr styleFiles"
| "forEachImport depth manifest (imp # imps) styleFiles =
     (case handleEntryImports depth manifest (map_of manifest imp) styleFiles of
        Inl err \<Rightarrow> Inl err
      | Inr styleFiles' \<Rightarrow> forEachImport depth manifest imps styleFiles')"

text \<open>
  The table \<open>entryNameByPath\<close> that \<open>closeBundle\<close> builds from the configured input
  (logical key, source path), in the order of \<^verbatim>\<open>Object.keys\<close>:
  \<^verbatim>\<open>
  const entryNameByPath = {}
  Object.keys(input).forEach((key) => {
    let path = input[key]
    if (path.startsWith('./')) { path = path.substring(2) }
    entryNameByPath[path] = key
  })\<close>
  A later key with the same normalised path overwrites an earlier one. The table is a
  plain object, so a lookup also finds the properties that every object inherits from
  \<^verbatim>\<open>Object.prototype\<close>. \<open>Object_prototype\<close> lists their names, each with the text its
  value has in a template literal (a built-in function, and for \<^verbatim>\<open>__proto__\<close> the
  prototype object itself); that text is what the branch of the entry is keyed with.
  Assigning a string to \<^verbatim>\<open>__proto__\<close> changes nothing.
\<close>

definition normalizePath :: "string \<Rightarrow> string" where
  "normalizePath path = (if startsWith path ''./'' then drop 2 path else path)"

definition nativeFunction :: "string \<Rightarrow> string" where
  "nativeFunction fname = ''function '' @ fname @ ''() { [native code] }''"

definition Object_prototype :: "(string \<times> string) list" where
  "Object_prototype =
     [(''constructor'', nativeFunction ''Object''),
      (''__defineGetter__'', nativeFunction ''__defineGetter__''),
      (''__defineSetter__'', nativeFunction ''__defineSetter__''),
      (''hasOwnProperty'', nativeFunction ''hasOwnProperty''),
      (''__lookupGetter__'', nativeFunction ''__lookupGetter__''),
      (''__lookupSetter__'', nativeFunction ''__lookupSetter__''),
      (''isPrototypeOf'', nativeFunction ''isPrototypeOf''),
      (''propertyIsEnumerable'', nativeFunction ''propertyIsEnumerable''),
      (''toString'', nativeFunction ''toString''),
      (''valueOf'', nativeFunction ''valueOf''),
      (''__proto__'', ''[object Object]''),
      (''toLocaleString'', nativeFunction ''toLocaleString'')]"

definition assignEntryName :: "string \<times> string \<Rightarrow> (string \<rightharpoonup> string) \<Rightarrow> (string \<rightharpoonup> string)" where
  "assignEntryName entry tbl =
     (let key = fst entry; path = normalizePath (snd entry)
      in if path = ''__proto__'' then tbl else tbl(path \<mapsto> key))"

definition entryNameByPath :: "(string \<times> string) list \<Rightarrow> (string \<rightharpoonup> string)" where
  "entryNameByPath input = fold assignEntryName input (map_of Object_prototype)"

text \<open>
  \<^verbatim>\<open>name ?? entryNameByPath[src] ?? src.substring(src.lastIndexOf('/') + 1, src.lastIndexOf('.'))\<close>.
  A property key that is \<^verbatim>\<open>undefined\<close> is looked up as the text \<^verbatim>\<open>undefined\<close>;
  a method call on \<^verbatim>\<open>undefined\<close> throws.
\<close>

definition entryName :: "(string \<rightharpoonup> string) \<Rightarrow> ManifestEntry \<Rightarrow> error + string" where
  "entryName byPath e =
     (case name e of
        Some n \<Rightarrow> Inr n
      | None \<Rightarrow>
          (case byPath (ToString (src e)) of
             Some key \<Rightarrow> Inr key
           | None \<Rightarrow>
               (case src e of
                  None \<Rightarrow> Inl TypeError
                | Some s \<Rightarrow>
                    Inr (substring s (lastIndexOf s (CHR ''/'') + 1) (lastIndexOf s (CHR ''.''))))))"

text \<open>
  The body of the callback for a record whose \<open>isEntry\<close> is \<open>true\<close>, in two steps. The
  first is the resolution of the entry (its name, its style files and its script files):
  \<^verbatim>\<open>
  const styleFiles = new Set()
  const jsFiles = new Set()
  const entryName = name ?? entryNameByPath[src] ?? src.substring(...)
  handleEntryImports({ src, file, css, imports })
  !isStyles(src) && jsFiles.add(file)\<close>
  The second, \<open>renderEntry\<close> below, is the text pushed onto \<open>allEntries\<close>.
\<close>

record EntryResolution =
  entryName_of :: string
  styleFiles :: "string option list"
  jsFiles :: "string option list"

definition resolveEntry ::
    "nat \<Rightarrow> (string \<rightharpoonup> string) \<Rightarrow> manifest \<Rightarrow> ManifestEntry \<Rightarrow> error + EntryResolution" where
  "resolveEntry depth byPath manifest e =
     (case entryName byPath e of
        Inl err \<Rightarrow> Inl err
      | Inr nm \<Rightarrow>
          (case handleEntryImports depth manifest (Some e) [] of
             Inl err \<Rightarrow> Inl err
           | Inr styles \<Rightarrow>
               Inr \<lparr>entryName_of = nm, styleFiles = styles,
                    jsFiles = (if \<not> isStyles (src e) then Set_add (file' e) [] else [])\<rparr>))"

section \<open>The snippet\<close>

definition nl :: string where
  "nl = [CHR 0x0A]"

definition dquote :: string where
  "dquote = [CHR 0x22]"

definition squote :: string where
  "squote = [CHR 0x27]"

definition assignScriptFiles :: "string option list \<Rightarrow> string" where
  "assignScriptFiles fileNames =
     nl @ ''      assign js_files = '' @ dquote @ join ''|'' fileNames @ dquote"

definition assignStyleFiles :: "string option list \<Rightarrow> string" where
  "assignStyleFiles fileNames =
     nl @ ''      assign style_files = '' @ dquote @ join ''|'' fileNames @ dquote"

definition entryTag :: "string \<Rightarrow> string \<Rightarrow> string" where
  "entryTag entryName' assets = nl @ ''    when '' @ squote @ entryName' @ squote @ assets"

text \<open>
  \<^verbatim>\<open>
  styleFiles.size > 0 && assets.push(assignStyleFiles([...styleFiles]))
  jsFiles.size > 0 && assets.push(assignScriptFiles([...jsFiles]))
  allEntries.push(entryTag(entryName, assets.join('')))\<close>
\<close>

definition assetsOf :: "EntryResolution \<Rightarrow> string list" where
  "assetsOf r =
     (if length (styleFiles r) > 0 then [assignStyleFiles (styleFiles r)] else []) @
     (if length (jsFiles r) > 0 then [assignScriptFiles (jsFiles r)] else [])"

definition renderEntry :: "EntryResolution \<Rightarrow> string" where
  "renderEntry r = entryTag (entryName_of r) (concat (assetsOf r))"

text \<open>
  \<^verbatim>\<open>manifestValues.forEach(({ isEntry, ... }) => { if (isEntry === true) { ...
  allEntries.push(entryTag(entryName, assets.join(''))) } })\<close>: an exception in one callback
  ends the whole loop.
\<close>

fun forEachValue ::
    "nat \<Rightarrow> (string \<rightharpoonup> string) \<Rightarrow> manifest \<Rightarrow> ManifestEntry list \<Rightarrow> string list \<Rightarrow> error + string list" where
  "forEachValue depth byPath manifest [] allEntries = Inr allEntries"
| "forEachValue depth byPath manifest (e # es) allEntries =
     (if isEntry e = Some True then
        (case resolveEntry depth byPath manifest e of
           Inl err \<Rightarrow> Inl err
         | Inr r \<Rightarrow> forEachValue depth byPath manifest es (allEntries @ [renderEntry r]))
      else forEachValue depth byPath manifest es allEntries)"

text \<open>
  The text handed to \<^verbatim>\<open>writeFile\<close>. \<open>snippetStart\<close> and \<open>snippetEnd\<close> are the two
  fixed template fragments of the module, taken as parameters.
\<close>

definition snippetText :: "string \<Rightarrow> string \<Rightarrow> string list \<Rightarrow> string" where
  "snippetText snippetStart snippetEnd allEntries =
     ''{%- liquid'' @ snippetStart @ nl @ ''  case entry'' @ concat allEntries @ nl @
     ''  endcase'' @ nl @ snippetEnd @ nl @ ''-%}''"

definition generateEntries :: "nat \<Rightarrow> (string \<times> string) list \<Rightarrow> manifest \<Rightarrow> error + string list" where
  "generateEntries depth input manifest =
     forEachValue depth (entryNameByPath input) manifest (map snd manifest) []"

section \<open>Notions the properties are stated with\<close>

text \<open>
  \<open>reaches manifest e r\<close>: the record \<open>r\<close> is \<open>e\<close> itself or is found from \<open>e\<close> along a
  chain of \<open>imports'\<close> keys, every record before \<open>r\<close> on the chain having a source that is
  not a stylesheet.
\<close>

inductive reaches :: "manifest \<Rightarrow> ManifestEntry \<Rightarrow> ManifestEntry \<Rightarrow> bool" for manifest where
  here: "reaches manifest e e"
| step: "\<not> isStyles (src e) \<Longrightarrow> imp \<in> set (imports' e) \<Longrightarrow> map_of manifest imp = Some n \<Longrightarrow>
         reaches manifest n r \<Longrightarrow> reaches manifest e r"

text \<open>A list cut down to the first occurrence of each of its elements.\<close>

primrec firstOcc :: "'a list \<Rightarrow> 'a list" where
  "firstOcc [] = []"
| "firstOcc (x # xs) = x # removeAll x (firstOcc xs)"

text \<open>
  The arguments of the calls \<^verbatim>\<open>styleFiles.add(...)\<close> that \<open>handleEntryImports\<close> makes, in
  the order of the calls: the same traversal, writing every call down instead of
  updating the set.
\<close>

fun encountered :: "nat \<Rightarrow> manifest \<Rightarrow> ManifestEntry option \<Rightarrow> error + string option list"
  and encounteredEach :: "nat \<Rightarrow> manifest \<Rightarrow> string list \<Rightarrow> error + string option list"
where
  "encountered 0 manifest node = Inl RangeError"
| "encountered (Suc depth) manifest None = Inl TypeError"
| "encountered (Suc depth) manifest (Some node) =
     (if isStyles (src node) then Inr [file' node]
      else (case encounteredEach depth manifest (imports' node) of
              Inl err \<Rightarrow> Inl err
            | Inr adds \<Rightarrow> Inr (map Some (css node) @ adds)))"
| "encounteredEach depth manifest [] = Inr []"
| "encounteredEach depth manifest (imp # imps) =
     (case encountered depth manifest (map_of manifest imp) of
        Inl err \<Rightarrow> Inl err
      | Inr adds \<Rightarrow>
          (case encounteredEach depth manifest imps of
             Inl err \<Rightarrow> Inl err
           | Inr adds' \<Rightarrow> Inr (adds @ adds')))"

section \<open>The plugin's state and the configuration hooks\<close>

text \<open>
  The repository holds the plugin in two forms. \<open>VitePlugin\<close> is the single plugin object
  (\<^verbatim>\<open>vitePlugin\<close>, with the hooks \<^verbatim>\<open>config\<close>, \<^verbatim>\<open>writeBundle\<close>, \<^verbatim>\<open>closeBundle\<close>);
  \<open>ShopifyVitePlugin\<close> is \<^verbatim>\<open>dist/index.mjs\<close> (\<^verbatim>\<open>shopifyVitePlugin\<close>, three plugin objects
  whose state is set in \<^verbatim>\<open>configResolved\<close>). The variables the hooks share through their
  closure are the fields of \<open>plugin\<close>. \<open>mode\<close> is \<^verbatim>\<open>options.mode\<close> in the first form and
  \<^verbatim>\<open>resolvedConfig.mode\<close> in the second.
\<close>

datatype variant = VitePlugin | ShopifyVitePlugin

record plugin =
  variant :: variant
  themeRoot :: string
  snippetFilename :: string
  manifestFilename :: string
  input :: "(string \<times> string) list"
  outDir :: string
  mode :: "string option"

record options =
  options_mode :: "string option"
  options_themeRoot :: "string option"
  options_snippetFilename :: "string option"

definition DEFAULT_OUT_DIR :: string where
  "DEFAULT_OUT_DIR = ''./assets''"

definition newPlugin :: "variant \<Rightarrow> options \<Rightarrow> plugin" where
  "newPlugin v opts =
     \<lparr>variant = v,
      themeRoot = (case options_themeRoot opts of None \<Rightarrow> ''./'' | Some r \<Rightarrow> r),
      snippetFilename = (case options_snippetFilename opts of None \<Rightarrow> ''vite.liquid'' | Some n \<Rightarrow> n),
      manifestFilename = ''_manifest.json'',
      input = [],
      outDir = DEFAULT_OUT_DIR,
      mode = options_mode opts\<rparr>"

text \<open>The part of the bundler's configuration the hooks read.\<close>

datatype manifestOption = ManifestUnset | ManifestFlag bool | ManifestName string

record config =
  build_outDir :: "string option"
  build_manifest :: manifestOption
  build_input :: "(string \<times> string) list option"
  config_mode :: string

text \<open>
  The \<^verbatim>\<open>config\<close> hook of the single plugin object:
  \<^verbatim>\<open>
  input = config.build?.rollupOptions?.input ?? input
  outDir = config.build?.outDir ?? outDir
  manifestFilename = typeof config.build?.manifest === 'string' ? config.build.manifest : manifestFilename
  if (outDir.endsWith('/')) { outDir = outDir.slice(0, outDir.length - 1) }
  return { ...config, build: { ...config.build, manifest: manifestFilename }, ... }\<close>
\<close>

definition config_hook :: "plugin \<Rightarrow> config \<Rightarrow> plugin \<times> config" where
  "config_hook p c =
     (let input' = (case build_input c of None \<Rightarrow> input p | Some i \<Rightarrow> i);
          outDir0 = (case build_outDir c of None \<Rightarrow> outDir p | Some d \<Rightarrow> d);
          manifestFilename' =
            (case build_manifest c of ManifestName n \<Rightarrow> n | _ \<Rightarrow> manifestFilename p);
          outDir' = (if endsWith outDir0 ''/'' then take (length outDir0 - 1) outDir0 else outDir0)
      in (p\<lparr>input := input', outDir := outDir', manifestFilename := manifestFilename'\<rparr>,
          c\<lparr>build_manifest := ManifestName manifestFilename'\<rparr>))"

text \<open>
  \<^verbatim>\<open>dist/index.mjs\<close>: the \<^verbatim>\<open>config\<close> hook of the first plugin object makes
  \<^verbatim>\<open>build.manifest\<close> a file name, and \<^verbatim>\<open>configResolved\<close> copies the resolved
  configuration into the state:
  \<^verbatim>\<open>
  resolvedConfig = config
  input = config.build?.rollupOptions?.input ?? input
  outDir = config.build?.outDir ?? outDir
  manifestFilename = config.build.manifest\<close>
\<close>

definition config_manifest :: "config \<Rightarrow> config" where
  "config_manifest c =
     c\<lparr>build_manifest :=
         ManifestName (case build_manifest c of ManifestName n \<Rightarrow> n | _ \<Rightarrow> ''_manifest.json'')\<rparr>"

definition configResolved :: "plugin \<Rightarrow> config \<Rightarrow> plugin" where
  "configResolved p c =
     p\<lparr>mode := Some (config_mode c),
       input := (case build_input c of None \<Rightarrow> input p | Some i \<Rightarrow> i),
       outDir := (case build_outDir c of None \<Rightarrow> outDir p | Some d \<Rightarrow> d),
       manifestFilename :=
         (case build_manifest c of ManifestName n \<Rightarrow> n | _ \<Rightarrow> manifestFilename p)\<rparr>"

text \<open>The configuration step of either form.\<close>

definition configure :: "plugin \<Rightarrow> config \<Rightarrow> plugin" where
  "configure p c =
     (case variant p of
        VitePlugin \<Rightarrow> fst (config_hook p c)
      | ShopifyVitePlugin \<Rightarrow> configResolved p (config_manifest c))"

section \<open>The file system\<close>

text \<open>
  A path names a file with its content, a directory, or nothing. Permissions are not
  part of the model: an operation fails only for the kind of node it finds.
  \<open>console\<close> collects what \<^verbatim>\<open>console.error\<close> prints.
\<close>

datatype node = File string | Directory

record world =
  fs :: "string \<rightharpoonup> node"
  console :: "error list"

definition dirname :: "string \<Rightarrow> string" where
  "dirname path =
     (let d = rev (drop 1 (dropWhile (\<lambda>c. c \<noteq> CHR ''/'') (rev path)))
      in if d = [] then ''/'' else d)"

definition checkFileExists :: "world \<Rightarrow> string \<Rightarrow> bool" where
  "checkFileExists w path = (fs w path \<noteq> None)"

definition readFile :: "world \<Rightarrow> string \<Rightarrow> error + string" where
  "readFile w path =
     (case fs w path of None \<Rightarrow> Inl ENOENT | Some Directory \<Rightarrow> Inl EISDIR | Some (File text) \<Rightarrow> Inr text)"

definition writeFile :: "string \<Rightarrow> string \<Rightarrow> world \<Rightarrow> error + world" where
  "writeFile path text w =
     (if fs w path = Some Directory then Inl EISDIR
      else if fs w (dirname path) \<noteq> Some Directory then Inl ENOENT
      else Inr (w\<lparr>fs := (fs w)(path \<mapsto> File text)\<rparr>))"

definition unlink :: "string \<Rightarrow> world \<Rightarrow> error + world" where
  "unlink path w =
     (case fs w path of
        None \<Rightarrow> Inl ENOENT
      | Some Directory \<Rightarrow> Inl EISDIR
      | Some (File text) \<Rightarrow> Inr (w\<lparr>fs := (fs w)(path := None)\<rparr>))"

section \<open>closeBundle\<close>

text \<open>
  What the module takes from its runtime: \<^verbatim>\<open>path.resolve\<close>, \<^verbatim>\<open>JSON.parse\<close> (\<open>None\<close> for
  text that is not a manifest), the depth of the call stack, and the two fixed
  template fragments.
\<close>

record host =
  resolve :: "string list \<Rightarrow> string"
  JSON_parse :: "string \<Rightarrow> manifest option"
  stackDepth :: nat
  snippetStart :: string
  snippetEnd :: string

definition manifestPath :: "host \<Rightarrow> plugin \<Rightarrow> string" where
  "manifestPath h p = resolve h [outDir p, manifestFilename p]"

definition snippetPath :: "host \<Rightarrow> plugin \<Rightarrow> string" where
  "snippetPath h p =
     (case variant p of
        VitePlugin \<Rightarrow> resolve h [themeRoot p @ ''snippets/'' @ snippetFilename p]
      | ShopifyVitePlugin \<Rightarrow> resolve h [themeRoot p, ''./snippets/'' @ snippetFilename p])"

definition isDev :: "plugin \<Rightarrow> bool" where
  "isDev p = (mode p = Some ''development'')"

text \<open>
  The statements of the \<^verbatim>\<open>try\<close> block up to and including \<^verbatim>\<open>writeFile\<close>: read the
  manifest, parse it, resolve and render every entry, write the snippet.
\<close>

definition generateSnippet :: "host \<Rightarrow> plugin \<Rightarrow> world \<Rightarrow> error + world" where
  "generateSnippet h p w =
     (case readFile w (manifestPath h p) of
        Inl err \<Rightarrow> Inl err
      | Inr manifestFile \<Rightarrow>
          (case JSON_parse h manifestFile of
             None \<Rightarrow> Inl SyntaxError
           | Some manifest \<Rightarrow>
               (case generateEntries (stackDepth h) (input p) manifest of
                  Inl err \<Rightarrow> Inl err
                | Inr allEntries \<Rightarrow>
                    writeFile (snippetPath h p)
                      (snippetText (snippetStart h) (snippetEnd h) allEntries) w)))"

text \<open>
  The whole \<^verbatim>\<open>try\<close> block: the result is the error thrown together with the world at
  that moment, or the world at the end of the block.
\<close>

definition tryBlock :: "host \<Rightarrow> plugin \<Rightarrow> world \<Rightarrow> error \<times> world + world" where
  "tryBlock h p w =
     (case generateSnippet h p w of
        Inl err \<Rightarrow> Inl (err, w)
      | Inr w1 \<Rightarrow>
          if isDev p then Inr w1
          else (case unlink (manifestPath h p) w1 of
                  Inl err \<Rightarrow> Inl (err, w1)
                | Inr w2 \<Rightarrow> Inr w2))"

definition closeBundle :: "host \<Rightarrow> plugin \<Rightarrow> world \<Rightarrow> world" where
  "closeBundle h p w =
     (if \<not> checkFileExists w (manifestPath h p) then w
      else (case tryBlock h p w of
              Inl (err, w') \<Rightarrow> w'\<lparr>console := console w' @ [err]\<rparr>
            | Inr w' \<Rightarrow> w'))"

section \<open>writeBundle\<close>

text \<open>
  \<^verbatim>\<open>
  const fileNames = Object.keys(bundle)
  const files = await readdir(outDir)
  let consoleReport = ''
  await Promise.all(files.map(async file => {
    if (options.cleanup.fileNameRegex.test(file) && !fileNames.includes(file)) {
      consoleReport += `${file}\n`
      return await unlink(resolve(outDir, file))
    }
    return null
  }))\<close>
  The output directory is the list of its entries, name and node, names distinct;
  \<^verbatim>\<open>readdir\<close> gives the names. Every callback runs up to its \<^verbatim>\<open>unlink\<close> before the
  next one starts, so the tests happen in the order of \<^verbatim>\<open>readdir\<close>, on the one
  \<^verbatim>\<open>RegExp\<close> object of the options: the object is passed from file to file.
  \<open>unlinked\<close> collects the paths handed to \<^verbatim>\<open>unlink\<close>, and \<open>unlinkIn\<close> is what the
  deletion does to the directory. The hook fails when a deletion fails; the directory
  it leaves then is not described.
\<close>

type_synonym directory = "(string \<times> node) list"

definition readdir :: "directory \<Rightarrow> string list" where
  "readdir dir = map fst dir"

definition unlinkIn :: "string \<Rightarrow> directory \<Rightarrow> error + directory" where
  "unlinkIn file dir =
     (case map_of dir file of
        None \<Rightarrow> Inl ENOENT
      | Some Directory \<Rightarrow> Inl EISDIR
      | Some (File text) \<Rightarrow> Inr (filter (\<lambda>entry. fst entry \<noteq> file) dir))"

record cleanup =
  remaining :: directory
  consoleReport :: string
  unlinked :: "string list"

fun cleanupFiles ::
    "host \<Rightarrow> plugin \<Rightarrow> string list \<Rightarrow> string list \<Rightarrow> RegExp \<Rightarrow> cleanup \<Rightarrow> error + cleanup" where
  "cleanupFiles h p fileNames [] fileNameRegex st = Inr st"
| "cleanupFiles h p fileNames (file # files) fileNameRegex st =
     (let tested = RegExp_prototype_test fileNameRegex file
      in if fst tested \<and> file \<notin> set fileNames then
           (case unlinkIn file (remaining st) of
              Inl err \<Rightarrow> Inl err
            | Inr dir' \<Rightarrow>
                cleanupFiles h p fileNames files (snd tested)
                  (st\<lparr>remaining := dir',
                      consoleReport := consoleReport st @ file @ nl,
                      unlinked := unlinked st @ [resolve h [outDir p, file]]\<rparr>))
         else cleanupFiles h p fileNames files (snd tested) st)"

definition writeBundle ::
    "host \<Rightarrow> plugin \<Rightarrow> RegExp \<Rightarrow> string list \<Rightarrow> directory \<Rightarrow> error + cleanup" where
  "writeBundle h p fileNameRegex fileNames dir =
     cleanupFiles h p fileNames (readdir dir) fileNameRegex
       \<lparr>remaining = dir, consoleReport = [], unlinked = []\<rparr>"

text \<open>The pattern \<^verbatim>\<open>/\.min\.(js|css)$/\<close>, and whether a pattern matches somewhere in an input.\<close>

definition minRegex :: rx where
  "minRegex = Seq (str ''.min.'') (Seq (Alt (str ''js'') (str ''css'')) Eos)"

definition matches :: "RegExp \<Rightarrow> string \<Rightarrow> bool" where
  "matches R S = (firstMatch (matcher R S) [0..<Suc (length S)] \<noteq> None)"

section \<open>Example inputs\<close>

text \<open>A record with no field, and the manifest of the scenario in the specification.\<close>

definition noFields :: ManifestEntry where
  "noFields = \<lparr>isEntry = None, name = None, src = None, file' = None, css = [], imports' = []\<rparr>"

definition themeEntry :: ManifestEntry where
  "themeEntry = noFields\<lparr>isEntry := Some True, src := Some ''src/theme.js'',
     file' := Some ''theme.abc123.js'', css := [''theme.css''], imports' := [''src/utils.js'']\<rparr>"

definition scenarioManifest :: manifest where
  "scenarioManifest =
     [(''src/theme.js'', themeEntry),
      (''src/utils.js'', noFields\<lparr>file' := Some ''utils.def456.js''\<rparr>)]"

definition themeBranch :: string where
  "themeBranch =
     entryTag ''theme''
       (assignStyleFiles [Some ''theme.css''] @ assignScriptFiles [Some ''theme.abc123.js''])"

text \<open>An entry that imports a module that imports a stylesheet.\<close>

definition sheetS :: ManifestEntry where
  "sheetS = noFields\<lparr>src := Some ''src/s.scss'', file' := Some ''s.222.css''\<rparr>"

definition moduleA :: ManifestEntry where
  "moduleA = noFields\<lparr>file' := Some ''a.111.js'', imports' := [''src/s.scss'']\<rparr>"

definition mainEntry :: ManifestEntry where
  "mainEntry = noFields\<lparr>isEntry := Some True, src := Some ''src/main.js'',
     file' := Some ''main.000.js'', imports' := [''_a.js'']\<rparr>"

definition twoHopManifest :: manifest where
  "twoHopManifest = [(''src/main.js'', mainEntry), (''_a.js'', moduleA), (''src/s.scss'', sheetS)]"

text \<open>An entry and two imported modules that name the same stylesheets.\<close>

definition pageEntry :: ManifestEntry where
  "pageEntry = noFields\<lparr>isEntry := Some True, src := Some ''src/page.js'',
     file' := Some ''page.js'', css := [''x.css''], imports' := [''_a.js'', ''_b.js'']\<rparr>"

definition sharedStyleManifest :: manifest where
  "sharedStyleManifest =
     [(''src/page.js'', pageEntry),
      (''_a.js'', noFields\<lparr>file' := Some ''a.js'', css := [''y.css'', ''x.css'']\<rparr>),
      (''_b.js'', noFields\<lparr>file' := Some ''b.js'', css := [''y.css'', ''z.css'']\<rparr>)]"

text \<open>A stylesheet entry whose record names a stylesheet and a key that no manifest has.\<close>

definition sassEntry :: ManifestEntry where
  "sassEntry = noFields\<lparr>isEntry := Some True, src := Some ''src/page.scss'',
     file' := Some ''page.333.css'', css := [''other.css''], imports' := [''missing'']\<rparr>"

text \<open>Entries whose source has no extension after its last slash.\<close>

definition dottedDirEntry :: ManifestEntry where
  "dottedDirEntry = noFields\<lparr>isEntry := Some True, src := Some ''lib.v2/theme'',
     file' := Some ''theme.444.js''\<rparr>"

definition plainEntry :: ManifestEntry where
  "plainEntry = noFields\<lparr>isEntry := Some True, src := Some ''src/theme'',
     file' := Some ''theme.444.js''\<rparr>"

text \<open>A runtime, a configured plugin and a file system.\<close>

definition exampleHost :: host where
  "exampleHost =
     \<lparr>resolve = (\<lambda>paths. ''/work'' @ concat (map (\<lambda>p. ''/'' @ p) paths)),
      JSON_parse = (\<lambda>manifestFile. if manifestFile = ''scenario'' then Some scenarioManifest else None),
      stackDepth = 100,
      snippetStart = ''# start'',
      snippetEnd = ''# end''\<rparr>"

definition examplePlugin :: plugin where
  "examplePlugin =
     \<lparr>variant = VitePlugin, themeRoot = ''theme/'', snippetFilename = ''vite.liquid'',
      manifestFilename = ''_manifest.json'', input = [(''theme'', ''./src/theme.js'')],
      outDir = ''assets'', mode = None\<rparr>"

definition exampleWorld :: "string \<Rightarrow> world" where
  "exampleWorld manifestFile =
     \<lparr>fs = [''/work/assets/_manifest.json'' \<mapsto> File manifestFile,
             ''/work/theme/snippets'' \<mapsto> Directory],
      console = []\<rparr>"

definition exampleWritten :: world where
  "exampleWritten =
     (exampleWorld ''scenario'')
       \<lparr>fs := (fs (exampleWorld ''scenario''))
          (''/work/theme/snippets/vite.liquid'' \<mapsto>
             File (snippetText ''# start'' ''# end'' [themeBranch]))\<rparr>"

definition exampleDirectory :: directory where
  "exampleDirectory = [(''a.min.js'', File []), (''b.min.js'', File []), (''c.txt'', File [])]"

definition staleDirectory :: directory where
  "staleDirectory = [(''a.min.js'', File []), (''b.min.js'', File []), (''d.min.js'', File [])]"

text \<open>An entry whose source path is the name of an inherited property.\<close>

definition inheritedEntry :: ManifestEntry where
  "inheritedEntry = noFields\<lparr>isEntry := Some True, src := Some ''toString'',
     file' := Some ''toString.555.js''\<rparr>"

definition noOptions :: options where
  "noOptions = \<lparr>options_mode = None, options_themeRoot = None, options_snippetFilename = None\<rparr>"

definition exampleConfig :: "string option \<Rightarrow> config" where
  "exampleConfig dir =
     \<lparr>build_outDir = dir, build_manifest = ManifestUnset, build_input = None,
      config_mode = ''production''\<rparr>"

section \<open>Properties\<close>

subsection \<open>What the style pattern accepts\<close>

lemma rx_match_str: "rx_match (str w) s = (if prefix w s then [drop (length w) s] else [])"
proof (induction w arbitrary: s)
  case Nil
  show ?case by simp
next
  case (Cons c w)
  show ?case by (cases s) (simp_all add: Cons.IH)
qed

lemma accepts_Seq_str:
  "rx_match (Seq (str w) r) s \<noteq> [] \<longleftrightarrow> (\<exists>u. s = w @ u \<and> rx_match r u \<noteq> [])"
  by (auto simp: rx_match_str prefix_def)

lemma accepts_Seq_Alt:
  "rx_match (Seq (Alt a b) r) s \<noteq> [] \<longleftrightarrow>
     rx_match (Seq a r) s \<noteq> [] \<or> rx_match (Seq b r) s \<noteq> []"
  by auto

lemma accepts_Eos: "rx_match Eos s \<noteq> [] \<longleftrightarrow> s = []"
  by simp

lemma rx_match_styleRegex:
  "rx_match styleRegex t \<noteq> [] \<longleftrightarrow> t = ''.sass'' \<or> t = ''.scss'' \<or> t = ''.css''"
  unfolding styleRegex_def accepts_Seq_str accepts_Seq_Alt accepts_Eos
  apply simp
  by blast

lemma isStyles_Some:
  "isStyles (Some s) \<longleftrightarrow> suffix ''.sass'' s \<or> suffix ''.scss'' s \<or> suffix ''.css'' s"
  unfolding isStyles_def RegExp_test_def list_ex_iff
  by (simp add: rx_match_styleRegex bex_disj_distrib)

lemma isStyles_undefined: "\<not> isStyles None"
  by (simp add: isStyles_def RegExp_test_def list_ex_iff rx_match_styleRegex suffix_def)

lemma isStyles_upper_case: "\<not> isStyles (Some ''theme.CSS'')"
  by (simp add: isStyles_Some suffix_def)

text \<open>
  Claim C6. The classification of a source path: for every string \<open>s\<close>, the pattern
  \<^verbatim>\<open>/\.(sa|sc|c)ss$/\<close> accepts \<open>s\<close> exactly when \<open>s\<close> ends with \<^verbatim>\<open>.sass\<close>,
  \<^verbatim>\<open>.scss\<close> or \<^verbatim>\<open>.css\<close>, compared character by character (so case-sensitively);
  \<open>isStyles\<close> of a source is that test, and a record without a source is not a
  stylesheet.
\<close>

theorem isStyles_iff_suffix:
  "(RegExp_test styleRegex s \<longleftrightarrow> suffix ''.sass'' s \<or> suffix ''.scss'' s \<or> suffix ''.css'' s) \<and>
   (isStyles (Some s) \<longleftrightarrow> RegExp_test styleRegex s) \<and> \<not> isStyles None"
  using isStyles_Some [of s] isStyles_undefined by (simp add: isStyles_def)

subsection \<open>The set of style files\<close>

lemma set_Set_add: "set (Set_add x s) = insert x (set s)"
  by (auto simp: Set_add_def)

lemma distinct_Set_add: "distinct s \<Longrightarrow> distinct (Set_add x s)"
  by (simp add: Set_add_def)

lemma prefix_Set_add: "prefix s (Set_add x s)"
  by (simp add: Set_add_def)

lemma prefix_fold_Set_add: "prefix s (fold Set_add xs s)"
proof (induction xs arbitrary: s)
  case Nil
  show ?case by simp
next
  case (Cons x xs)
  have "prefix s (Set_add x s)" by (rule prefix_Set_add)
  also have "prefix (Set_add x s) (fold Set_add xs (Set_add x s))" by (rule Cons.IH)
  finally show ?case by simp
qed

lemma fold_css: "fold (\<lambda>cssFile. Set_add (Some cssFile)) cs s = fold Set_add (map Some cs) s"
  by (simp add: fold_map comp_def)

lemma filter_removeAll_member:
  "x \<in> set s \<Longrightarrow> filter (\<lambda>y. y \<notin> set s) (removeAll x ys) = filter (\<lambda>y. y \<notin> set s) ys"
  by (induction ys) auto

lemma filter_snoc_removeAll:
  "filter (\<lambda>y. y \<notin> set (s @ [x])) ys = filter (\<lambda>y. y \<notin> set s) (removeAll x ys)"
  by (induction ys) auto

lemma fold_Set_add_firstOcc:
  "fold Set_add xs s = s @ filter (\<lambda>y. y \<notin> set s) (firstOcc xs)"
proof (induction xs arbitrary: s)
  case Nil
  show ?case by simp
next
  case (Cons x xs)
  show ?case
  proof (cases "x \<in> set s")
    case True
    then have "Set_add x s = s" by (simp add: Set_add_def)
    with True show ?thesis by (simp add: Cons.IH filter_removeAll_member)
  next
    case False
    then have "Set_add x s = s @ [x]" by (simp add: Set_add_def)
    with False show ?thesis by (simp add: Cons.IH filter_snoc_removeAll del: set_append)
  qed
qed

lemma distinct_firstOcc: "distinct (firstOcc xs)"
  by (induction xs) (auto simp: distinct_removeAll)

lemma set_firstOcc: "set (firstOcc xs) = set xs"
  by (induction xs) auto

lemma handleEntryImports_encountered:
  "handleEntryImports depth manifest node s =
     (case encountered depth manifest node of Inl err \<Rightarrow> Inl err | Inr adds \<Rightarrow> Inr (fold Set_add adds s))"
  "forEachImport depth manifest imps s =
     (case encounteredEach depth manifest imps of Inl err \<Rightarrow> Inl err | Inr adds \<Rightarrow> Inr (fold Set_add adds s))"
  by (induction depth manifest node s and depth manifest imps s
      rule: handleEntryImports_forEachImport.induct)
     (auto simp: fold_css split: sum.splits)

lemma handleEntryImports_prefix:
  "handleEntryImports depth manifest node s = Inr s' \<Longrightarrow> prefix s s'"
  by (auto simp: handleEntryImports_encountered prefix_fold_Set_add split: sum.splits)

lemma forEachImport_prefix:
  "forEachImport depth manifest imps s = Inr s' \<Longrightarrow> prefix s s'"
  by (auto simp: handleEntryImports_encountered prefix_fold_Set_add split: sum.splits)

lemma forEachImport_member:
  "forEachImport depth manifest imps s = Inr s' \<Longrightarrow> imp \<in> set imps \<Longrightarrow>
     \<exists>s1 s2. handleEntryImports depth manifest (map_of manifest imp) s1 = Inr s2 \<and> set s2 \<subseteq> set s'"
proof (induction imps arbitrary: s)
  case Nil
  then show ?case by simp
next
  case (Cons i imps)
  from Cons.prems(1) obtain t where
    t: "handleEntryImports depth manifest (map_of manifest i) s = Inr t"
    and rest: "forEachImport depth manifest imps t = Inr s'"
    by (auto split: sum.splits)
  show ?case
  proof (cases "imp = i")
    case True
    from rest have "prefix t s'" by (rule forEachImport_prefix)
    then have "set t \<subseteq> set s'" by (rule set_mono_prefix)
    with t True show ?thesis by blast
  next
    case False
    with Cons.prems(2) have "imp \<in> set imps" by simp
    from Cons.IH [OF rest this] show ?thesis .
  qed
qed

lemma reaches_styles:
  assumes "reaches manifest e r" and "isStyles (src r)"
    and "handleEntryImports depth manifest (Some e) s = Inr s'"
  shows "file' r \<in> set s'"
  using assms
proof (induction arbitrary: depth s s' rule: reaches.induct)
  case (here e)
  then show ?case by (cases depth) (auto simp: set_Set_add)
next
  case (step e imp n r)
  from step.prems(2) step.hyps(1) obtain d s0 where
    d: "depth = Suc d" and each: "forEachImport d manifest (imports' e) s0 = Inr s'"
    by (cases depth) auto
  from forEachImport_member [OF each step.hyps(2)] step.hyps(3)
  obtain s1 s2 where "handleEntryImports d manifest (Some n) s1 = Inr s2" and sub: "set s2 \<subseteq> set s'"
    by auto
  from step.IH [OF step.prems(1) this(1)] sub show ?case by blast
qed


text \<open>
  The traversal returns for a manifest whose import graph is closed and has no cycle:
  when every key imported by a record that is traversed names a record of smaller rank,
  a stack deeper than the rank of the entry suffices.
\<close>

lemma forEachImport_returns:
  assumes "\<And>i s. i \<in> set imps \<Longrightarrow> \<exists>s'. handleEntryImports depth manifest (map_of manifest i) s = Inr s'"
  shows "\<exists>s'. forEachImport depth manifest imps s = Inr s'"
  using assms
proof (induction imps arbitrary: s)
  case Nil
  show ?case by simp
next
  case (Cons i imps)
  from Cons.prems [of i s] obtain t where t: "handleEntryImports depth manifest (map_of manifest i) s = Inr t"
    by auto
  have "\<exists>s'. forEachImport depth manifest imps t = Inr s'"
    by (rule Cons.IH) (simp add: Cons.prems)
  with t show ?case by simp
qed

lemma handleEntryImports_returns_aux:
  assumes closed: "\<And>n i. n = e \<or> n \<in> ran (map_of manifest) \<Longrightarrow> \<not> isStyles (src n) \<Longrightarrow>
             i \<in> set (imports' n) \<Longrightarrow> \<exists>n'. map_of manifest i = Some n' \<and> rank n' < rank n"
  shows "n = e \<or> n \<in> ran (map_of manifest) \<Longrightarrow> rank n < depth \<Longrightarrow>
           \<exists>s'. handleEntryImports depth manifest (Some n) s = Inr s'"
proof (induction depth arbitrary: n s)
  case 0
  then show ?case by simp
next
  case (Suc depth)
  show ?case
  proof (cases "isStyles (src n)")
    case True
    then show ?thesis by simp
  next
    case False
    have "\<exists>s'. handleEntryImports depth manifest (map_of manifest i) t = Inr s'"
      if "i \<in> set (imports' n)" for i t
    proof -
      from closed [OF Suc.prems(1) False that] obtain n' where
        n': "map_of manifest i = Some n'" and less: "rank n' < rank n" by blast
      from n' have "n' \<in> ran (map_of manifest)" by (auto simp: ran_def)
      moreover from less Suc.prems(2) have "rank n' < depth" by simp
      ultimately show ?thesis using Suc.IH [of n' t] n' by simp
    qed
    then have "\<exists>s'. forEachImport depth manifest (imports' n)
                 (fold (\<lambda>cssFile. Set_add (Some cssFile)) (css n) s) = Inr s'"
      by (rule forEachImport_returns)
    with False show ?thesis by simp
  qed
qed

lemma handleEntryImports_returns:
  assumes "\<And>n i. n = e \<or> n \<in> ran (map_of manifest) \<Longrightarrow> \<not> isStyles (src n) \<Longrightarrow>
             i \<in> set (imports' n) \<Longrightarrow> \<exists>n'. map_of manifest i = Some n' \<and> rank n' < rank n"
    and "rank e < depth"
  shows "\<exists>s'. handleEntryImports depth manifest (Some e) s = Inr s'"
  using handleEntryImports_returns_aux [of e manifest rank e depth s] assms by blast


subsection \<open>The resolution and the branches\<close>

lemma resolveEntry_name: "resolveEntry depth byPath manifest e = Inr r \<Longrightarrow> entryName byPath e = Inr (entryName_of r)"
  by (auto simp: resolveEntry_def split: sum.splits)

lemma resolveEntry_styleFiles:
  "resolveEntry depth byPath manifest e = Inr r \<Longrightarrow>
     handleEntryImports depth manifest (Some e) [] = Inr (styleFiles r)"
  by (auto simp: resolveEntry_def split: sum.splits)

lemma resolveEntry_jsFiles:
  "resolveEntry depth byPath manifest e = Inr r \<Longrightarrow>
     jsFiles r = (if isStyles (src e) then [] else [file' e])"
  by (auto simp: resolveEntry_def Set_add_def split: sum.splits)

lemma resolveEntry_own_style:
  assumes "resolveEntry depth byPath manifest e = Inr r" and "isStyles (src e)"
  shows "styleFiles r = [file' e]"
proof -
  from assms(1) have "handleEntryImports depth manifest (Some e) [] = Inr (styleFiles r)"
    by (rule resolveEntry_styleFiles)
  with assms(2) show ?thesis by (cases depth) (auto simp: Set_add_def)
qed

lemma forEachValue_branches:
  "forEachValue depth byPath manifest es acc = Inr bs \<Longrightarrow>
     \<exists>rs. bs = acc @ map renderEntry rs \<and>
          map (resolveEntry depth byPath manifest) (filter (\<lambda>e. isEntry e = Some True) es) = map Inr rs"
proof (induction es arbitrary: acc)
  case Nil
  then show ?case by simp
next
  case (Cons e es)
  show ?case
  proof (cases "isEntry e = Some True")
    case True
    with Cons.prems obtain r where r: "resolveEntry depth byPath manifest e = Inr r"
      and rest: "forEachValue depth byPath manifest es (acc @ [renderEntry r]) = Inr bs"
      by (auto split: sum.splits)
    from Cons.IH [OF rest] obtain rs where
      "bs = (acc @ [renderEntry r]) @ map renderEntry rs"
      "map (resolveEntry depth byPath manifest) (filter (\<lambda>e. isEntry e = Some True) es) = map Inr rs"
      by blast
    with True r have "bs = acc @ map renderEntry (r # rs) \<and>
        map (resolveEntry depth byPath manifest) (filter (\<lambda>e. isEntry e = Some True) (e # es)) = map Inr (r # rs)"
      by simp
    then show ?thesis by blast
  next
    case False
    with Cons.prems have "forEachValue depth byPath manifest es acc = Inr bs" by simp
    from Cons.IH [OF this] False show ?thesis by simp
  qed
qed

lemma generateEntries_resolutions:
  assumes "generateEntries depth inp manifest = Inr allEntries"
  shows "list_all2 (\<lambda>e branch. \<exists>r. resolveEntry depth (entryNameByPath inp) manifest e = Inr r \<and> branch = renderEntry r)
           (filter (\<lambda>e. isEntry e = Some True) (map snd manifest)) allEntries"
proof -
  from assms obtain rs where bs: "allEntries = map renderEntry rs"
    and rs: "map (resolveEntry depth (entryNameByPath inp) manifest)
               (filter (\<lambda>e. isEntry e = Some True) (map snd manifest)) = map Inr rs"
    unfolding generateEntries_def by (auto dest: forEachValue_branches)
  from rs have "list_all2 (\<lambda>e r. resolveEntry depth (entryNameByPath inp) manifest e = Inr r)
      (filter (\<lambda>e. isEntry e = Some True) (map snd manifest)) rs"
    by (simp add: list_all2_conv_all_nth list_eq_iff_nth_eq)
  then show ?thesis unfolding bs
    by (simp add: list_all2_map2) (erule list_all2_mono, simp)
qed


text \<open>
  The generation returns for such a manifest when, besides, every entry has a name or a
  source; the snippet is written when its directory exists.
\<close>

lemma entryName_returns:
  "name e \<noteq> None \<or> src e \<noteq> None \<Longrightarrow> \<exists>nm. entryName byPath e = Inr nm"
  by (auto simp: entryName_def split: option.split)

lemma forEachValue_returns:
  assumes "\<And>e. e \<in> set es \<Longrightarrow> isEntry e = Some True \<Longrightarrow>
             \<exists>r. resolveEntry depth byPath manifest e = Inr r"
  shows "\<exists>allEntries. forEachValue depth byPath manifest es acc = Inr allEntries"
  using assms
proof (induction es arbitrary: acc)
  case Nil
  show ?case by simp
next
  case (Cons e es)
  have rest: "\<exists>allEntries. forEachValue depth byPath manifest es acc' = Inr allEntries" for acc'
    by (rule Cons.IH) (simp add: Cons.prems)
  show ?case
  proof (cases "isEntry e = Some True")
    case True
    with Cons.prems [of e] obtain r where "resolveEntry depth byPath manifest e = Inr r" by auto
    with True rest [of "acc @ [renderEntry r]"] show ?thesis by simp
  next
    case False
    with rest [of acc] show ?thesis by simp
  qed
qed

lemma generateEntries_returns:
  assumes closed: "\<And>n i. n \<in> snd ` set manifest \<Longrightarrow> \<not> isStyles (src n) \<Longrightarrow>
             i \<in> set (imports' n) \<Longrightarrow> \<exists>n'. map_of manifest i = Some n' \<and> rank n' < rank n"
    and deep: "\<And>n. n \<in> snd ` set manifest \<Longrightarrow> rank n < depth"
    and named: "\<And>e. e \<in> snd ` set manifest \<Longrightarrow> isEntry e = Some True \<Longrightarrow>
             name e \<noteq> None \<or> src e \<noteq> None"
  shows "\<exists>allEntries. generateEntries depth inp manifest = Inr allEntries"
  unfolding generateEntries_def
proof (rule forEachValue_returns)
  fix e
  assume e: "e \<in> set (map snd manifest)" and entry: "isEntry e = Some True"
  then have mem: "e \<in> snd ` set manifest" by simp
  from entryName_returns [OF named [OF mem entry]]
  obtain nm where nm: "entryName (entryNameByPath inp) e = Inr nm" by blast
  have "\<exists>s'. handleEntryImports depth manifest (Some e) [] = Inr s'"
  proof (rule handleEntryImports_returns [where rank = rank])
    fix n i
    assume "n = e \<or> n \<in> ran (map_of manifest)" "\<not> isStyles (src n)" "i \<in> set (imports' n)"
    moreover from this(1) mem have "n \<in> snd ` set manifest"
      by (auto simp: ran_def dest!: map_of_SomeD intro: rev_image_eqI)
    ultimately show "\<exists>n'. map_of manifest i = Some n' \<and> rank n' < rank n"
      using closed by blast
  next
    show "rank e < depth" by (rule deep [OF mem])
  qed
  then obtain s' where "handleEntryImports depth manifest (Some e) [] = Inr s'" ..
  with nm show "\<exists>r. resolveEntry depth (entryNameByPath inp) manifest e = Inr r"
    by (simp add: resolveEntry_def)
qed

lemma generateSnippet_returns:
  assumes "fs w (manifestPath h p) = Some (File manifestFile)"
    and "JSON_parse h manifestFile = Some manifest"
    and "generateEntries (stackDepth h) (input p) manifest = Inr allEntries"
    and "fs w (snippetPath h p) \<noteq> Some Directory"
    and "fs w (dirname (snippetPath h p)) = Some Directory"
  shows "\<exists>w'. generateSnippet h p w = Inr w'"
  using assms by (simp add: generateSnippet_def readFile_def writeFile_def)

lemma generateEntries_scenario:
  "generateEntries 100 [(''theme'', ''./src/theme.js'')] scenarioManifest = Inr [themeBranch]"
  by code_simp

lemma generateSnippet_scenario:
  "generateSnippet exampleHost examplePlugin (exampleWorld ''scenario'') = Inr exampleWritten"
  by (simp add: generateSnippet_def readFile_def writeFile_def manifestPath_def snippetPath_def
        dirname_def exampleHost_def examplePlugin_def exampleWorld_def exampleWritten_def
        generateEntries_scenario)

lemma readFile_scenario:
  "readFile (exampleWorld ''scenario'') (manifestPath exampleHost examplePlugin) = Inr ''scenario''"
  by code_simp

lemma JSON_parse_scenario: "JSON_parse exampleHost ''scenario'' = Some scenarioManifest"
  by (simp add: exampleHost_def)

lemma join_text:
  "xs \<noteq> [] \<Longrightarrow>
     join sep xs =
       (case hd xs of None \<Rightarrow> [] | Some s \<Rightarrow> s) @
       concat (map (\<lambda>y. sep @ (case y of None \<Rightarrow> [] | Some s \<Rightarrow> s)) (tl xs))"
  by (induction sep xs rule: join.induct) simp_all

lemma snippetText_text:
  "snippetText start end allEntries =
     ''{%- liquid'' @ start @ [CHR 0x0A] @ ''  case entry'' @ concat allEntries @ [CHR 0x0A] @
     ''  endcase'' @ [CHR 0x0A] @ end @ [CHR 0x0A] @ ''-%}''"
  by (simp add: snippetText_def nl_def)

lemma renderEntry_text:
  "renderEntry r =
     [CHR 0x0A] @ ''    when '' @ [CHR 0x27] @ entryName_of r @ [CHR 0x27] @
     (if styleFiles r = [] then []
      else [CHR 0x0A] @ ''      assign style_files = '' @ [CHR 0x22] @ (case hd (styleFiles r) of None \<Rightarrow> [] | Some s \<Rightarrow> s) @
                        concat (map (\<lambda>y. ''|'' @ (case y of None \<Rightarrow> [] | Some s \<Rightarrow> s))
                                  (tl (styleFiles r))) @ [CHR 0x22]) @
     (if jsFiles r = [] then []
      else [CHR 0x0A] @ ''      assign js_files = '' @ [CHR 0x22] @ (case hd (jsFiles r) of None \<Rightarrow> [] | Some s \<Rightarrow> s) @
                        concat (map (\<lambda>y. ''|'' @ (case y of None \<Rightarrow> [] | Some s \<Rightarrow> s))
                                  (tl (jsFiles r))) @ [CHR 0x22])"
  by (simp add: renderEntry_def entryTag_def assetsOf_def assignStyleFiles_def
        assignScriptFiles_def nl_def squote_def dquote_def join_text)

lemma themeBranch_text:
  "themeBranch =
     [CHR 0x0A] @ ''    when '' @ [CHR 0x27] @ ''theme'' @ [CHR 0x27] @
     [CHR 0x0A] @ ''      assign style_files = '' @ [CHR 0x22] @ ''theme.css'' @ [CHR 0x22] @
     [CHR 0x0A] @ ''      assign js_files = '' @ [CHR 0x22] @ ''theme.abc123.js'' @ [CHR 0x22]"
  by (simp add: themeBranch_def entryTag_def assignStyleFiles_def assignScriptFiles_def
        nl_def squote_def dquote_def)

text \<open>
  Claim C1. When \<open>closeBundle\<close> has read and parsed a manifest and has written the snippet,
  the text written is \<^verbatim>\<open>{%- liquid\<close>, the first fixed fragment, the line
  \<^verbatim>\<open>  case entry\<close>, a list of branches, the line \<^verbatim>\<open>  endcase\<close>, the second fixed
  fragment and \<^verbatim>\<open>-%}\<close>. The list of branches runs parallel to the manifest's values
  whose \<open>isEntry\<close> is \<open>true\<close>, in the manifest's order: the branch of such a value is one
  line \<^verbatim>\<open>    when '<name>'\<close> with the name of the entry, followed by the assignment
  line of its style files when it has any and by the assignment line of its script
  files when it has any, and by nothing else. A value whose \<open>isEntry\<close> is not \<open>true\<close> has
  no branch.
\<close>

theorem one_branch_per_entry:
  assumes "generateSnippet h p w = Inr w'"
    and "readFile w (manifestPath h p) = Inr manifestFile"
    and "JSON_parse h manifestFile = Some manifest"
  shows "\<exists>allEntries.
           fs w' (snippetPath h p) =
             Some (File (''{%- liquid'' @ snippetStart h @ [CHR 0x0A] @ ''  case entry'' @
                         concat allEntries @ [CHR 0x0A] @ ''  endcase'' @ [CHR 0x0A] @
                         snippetEnd h @ [CHR 0x0A] @ ''-%}'')) \<and>
           list_all2
             (\<lambda>e branch. \<exists>r.
                resolveEntry (stackDepth h) (entryNameByPath (input p)) manifest e = Inr r \<and>
                entryName (entryNameByPath (input p)) e = Inr (entryName_of r) \<and>
                branch =
                  [CHR 0x0A] @ ''    when '' @ [CHR 0x27] @ entryName_of r @ [CHR 0x27] @
                  (if styleFiles r = [] then []
                   else [CHR 0x0A] @ ''      assign style_files = '' @ [CHR 0x22] @
                        (case hd (styleFiles r) of None \<Rightarrow> [] | Some s \<Rightarrow> s) @
                        concat (map (\<lambda>y. ''|'' @ (case y of None \<Rightarrow> [] | Some s \<Rightarrow> s))
                                  (tl (styleFiles r))) @ [CHR 0x22]) @
                  (if jsFiles r = [] then []
                   else [CHR 0x0A] @ ''      assign js_files = '' @ [CHR 0x22] @
                        (case hd (jsFiles r) of None \<Rightarrow> [] | Some s \<Rightarrow> s) @
                        concat (map (\<lambda>y. ''|'' @ (case y of None \<Rightarrow> [] | Some s \<Rightarrow> s))
                                  (tl (jsFiles r))) @ [CHR 0x22]))
             (filter (\<lambda>e. isEntry e = Some True) (map snd manifest)) allEntries"
proof -
  from assms obtain allEntries where
    gen: "generateEntries (stackDepth h) (input p) manifest = Inr allEntries"
    and wr: "writeFile (snippetPath h p) (snippetText (snippetStart h) (snippetEnd h) allEntries) w = Inr w'"
    unfolding generateSnippet_def by (auto split: sum.splits)
  from wr have "fs w' (snippetPath h p) =
      Some (File (snippetText (snippetStart h) (snippetEnd h) allEntries))"
    by (auto simp: writeFile_def split: if_splits)
  then have written: "fs w' (snippetPath h p) =
      Some (File (''{%- liquid'' @ snippetStart h @ [CHR 0x0A] @ ''  case entry'' @
                  concat allEntries @ [CHR 0x0A] @ ''  endcase'' @ [CHR 0x0A] @
                  snippetEnd h @ [CHR 0x0A] @ ''-%}''))"
    by (simp only: snippetText_text)
  have branches: "list_all2
       (\<lambda>e branch. \<exists>r.
          resolveEntry (stackDepth h) (entryNameByPath (input p)) manifest e = Inr r \<and>
          entryName (entryNameByPath (input p)) e = Inr (entryName_of r) \<and>
          branch =
            [CHR 0x0A] @ ''    when '' @ [CHR 0x27] @ entryName_of r @ [CHR 0x27] @
            (if styleFiles r = [] then []
             else [CHR 0x0A] @ ''      assign style_files = '' @ [CHR 0x22] @
                  (case hd (styleFiles r) of None \<Rightarrow> [] | Some s \<Rightarrow> s) @
                        concat (map (\<lambda>y. ''|'' @ (case y of None \<Rightarrow> [] | Some s \<Rightarrow> s))
                                  (tl (styleFiles r))) @ [CHR 0x22]) @
            (if jsFiles r = [] then []
             else [CHR 0x0A] @ ''      assign js_files = '' @ [CHR 0x22] @
                  (case hd (jsFiles r) of None \<Rightarrow> [] | Some s \<Rightarrow> s) @
                        concat (map (\<lambda>y. ''|'' @ (case y of None \<Rightarrow> [] | Some s \<Rightarrow> s))
                                  (tl (jsFiles r))) @ [CHR 0x22]))
       (filter (\<lambda>e. isEntry e = Some True) (map snd manifest)) allEntries"
  proof (rule list_all2_mono [OF generateEntries_resolutions [OF gen]])
    fix e branch
    assume "\<exists>r. resolveEntry (stackDepth h) (entryNameByPath (input p)) manifest e = Inr r \<and>
              branch = renderEntry r"
    then obtain r where r: "resolveEntry (stackDepth h) (entryNameByPath (input p)) manifest e = Inr r"
      and b: "branch = renderEntry r" by blast
    from r have "entryName (entryNameByPath (input p)) e = Inr (entryName_of r)"
      by (rule resolveEntry_name)
    with r b show "\<exists>r.
          resolveEntry (stackDepth h) (entryNameByPath (input p)) manifest e = Inr r \<and>
          entryName (entryNameByPath (input p)) e = Inr (entryName_of r) \<and>
          branch =
            [CHR 0x0A] @ ''    when '' @ [CHR 0x27] @ entryName_of r @ [CHR 0x27] @
            (if styleFiles r = [] then []
             else [CHR 0x0A] @ ''      assign style_files = '' @ [CHR 0x22] @
                  (case hd (styleFiles r) of None \<Rightarrow> [] | Some s \<Rightarrow> s) @
                        concat (map (\<lambda>y. ''|'' @ (case y of None \<Rightarrow> [] | Some s \<Rightarrow> s))
                                  (tl (styleFiles r))) @ [CHR 0x22]) @
            (if jsFiles r = [] then []
             else [CHR 0x0A] @ ''      assign js_files = '' @ [CHR 0x22] @
                  (case hd (jsFiles r) of None \<Rightarrow> [] | Some s \<Rightarrow> s) @
                        concat (map (\<lambda>y. ''|'' @ (case y of None \<Rightarrow> [] | Some s \<Rightarrow> s))
                                  (tl (jsFiles r))) @ [CHR 0x22])"
      unfolding renderEntry_text by blast
  qed
  from written branches show ?thesis by blast
qed

theorem one_branch_per_entry_witness:
  "generateSnippet exampleHost examplePlugin (exampleWorld ''scenario'') = Inr exampleWritten \<and>
   readFile (exampleWorld ''scenario'') (manifestPath exampleHost examplePlugin) = Inr ''scenario'' \<and>
   JSON_parse exampleHost ''scenario'' = Some scenarioManifest \<and>
   (\<exists>allEntries.
      fs exampleWritten (snippetPath exampleHost examplePlugin) =
        Some (File (''{%- liquid'' @ snippetStart exampleHost @ [CHR 0x0A] @ ''  case entry'' @
                    concat allEntries @ [CHR 0x0A] @ ''  endcase'' @ [CHR 0x0A] @
                    snippetEnd exampleHost @ [CHR 0x0A] @ ''-%}'')) \<and>
      list_all2
        (\<lambda>e branch. \<exists>r.
           resolveEntry (stackDepth exampleHost) (entryNameByPath (input examplePlugin))
             scenarioManifest e = Inr r \<and>
           entryName (entryNameByPath (input examplePlugin)) e = Inr (entryName_of r) \<and>
           branch =
             [CHR 0x0A] @ ''    when '' @ [CHR 0x27] @ entryName_of r @ [CHR 0x27] @
             (if styleFiles r = [] then []
              else [CHR 0x0A] @ ''      assign style_files = '' @ [CHR 0x22] @
                   (case hd (styleFiles r) of None \<Rightarrow> [] | Some s \<Rightarrow> s) @
                        concat (map (\<lambda>y. ''|'' @ (case y of None \<Rightarrow> [] | Some s \<Rightarrow> s))
                                  (tl (styleFiles r))) @ [CHR 0x22]) @
             (if jsFiles r = [] then []
              else [CHR 0x0A] @ ''      assign js_files = '' @ [CHR 0x22] @
                   (case hd (jsFiles r) of None \<Rightarrow> [] | Some s \<Rightarrow> s) @
                        concat (map (\<lambda>y. ''|'' @ (case y of None \<Rightarrow> [] | Some s \<Rightarrow> s))
                                  (tl (jsFiles r))) @ [CHR 0x22]))
        (filter (\<lambda>e. isEntry e = Some True) (map snd scenarioManifest)) allEntries) \<and>
   fs exampleWritten (snippetPath exampleHost examplePlugin) =
     Some (File (''{%- liquid# start'' @ [CHR 0x0A] @ ''  case entry'' @
                 [CHR 0x0A] @ ''    when '' @ [CHR 0x27] @ ''theme'' @ [CHR 0x27] @
                 [CHR 0x0A] @ ''      assign style_files = '' @ [CHR 0x22] @ ''theme.css'' @ [CHR 0x22] @
                 [CHR 0x0A] @ ''      assign js_files = '' @ [CHR 0x22] @ ''theme.abc123.js'' @ [CHR 0x22] @
                 [CHR 0x0A] @ ''  endcase'' @ [CHR 0x0A] @ ''# end'' @ [CHR 0x0A] @ ''-%}''))"
proof -
  have "fs exampleWritten (snippetPath exampleHost examplePlugin) =
     Some (File (''{%- liquid# start'' @ [CHR 0x0A] @ ''  case entry'' @
                 [CHR 0x0A] @ ''    when '' @ [CHR 0x27] @ ''theme'' @ [CHR 0x27] @
                 [CHR 0x0A] @ ''      assign style_files = '' @ [CHR 0x22] @ ''theme.css'' @ [CHR 0x22] @
                 [CHR 0x0A] @ ''      assign js_files = '' @ [CHR 0x22] @ ''theme.abc123.js'' @ [CHR 0x22] @
                 [CHR 0x0A] @ ''  endcase'' @ [CHR 0x0A] @ ''# end'' @ [CHR 0x0A] @ ''-%}''))"
    by (simp add: exampleWritten_def snippetPath_def exampleHost_def examplePlugin_def
          snippetText_text themeBranch_text)
  with one_branch_per_entry [OF generateSnippet_scenario readFile_scenario JSON_parse_scenario]
    generateSnippet_scenario readFile_scenario JSON_parse_scenario
  show ?thesis by simp
qed

text \<open>
  Claim C2. Style transitivity: when a record \<open>r\<close> whose source is a stylesheet is reached
  from the entry \<open>e\<close> along \<open>imports'\<close> keys through records whose source is not a
  stylesheet, the file of \<open>r\<close> is among the style files resolved for \<open>e\<close>. The example is
  an entry that imports a module that imports a stylesheet.
\<close>

theorem style_transitivity:
  assumes "reaches manifest e r" and "isStyles (src r)"
    and "resolveEntry depth byPath manifest e = Inr res"
  shows "file' r \<in> set (styleFiles res)"
  using reaches_styles [OF assms(1,2) resolveEntry_styleFiles [OF assms(3)]] .


lemma reaches_twoHop: "reaches twoHopManifest mainEntry sheetS"
proof -
  have a: "\<not> isStyles (src mainEntry)" "''_a.js'' \<in> set (imports' mainEntry)"
    "map_of twoHopManifest ''_a.js'' = Some moduleA"
    by code_simp+
  have b: "\<not> isStyles (src moduleA)" "''src/s.scss'' \<in> set (imports' moduleA)"
    "map_of twoHopManifest ''src/s.scss'' = Some sheetS"
    by code_simp+
  from b have "reaches twoHopManifest moduleA sheetS"
    by (rule reaches.step) (rule reaches.here)
  with a show ?thesis by (rule reaches.step)
qed

lemma resolveEntry_twoHop:
  "resolveEntry 3 Map.empty twoHopManifest mainEntry =
     Inr \<lparr>entryName_of = ''main'', styleFiles = [Some ''s.222.css''],
          jsFiles = [Some ''main.000.js'']\<rparr>"
  by code_simp

lemma isStyles_sheetS: "isStyles (src sheetS)"
  by code_simp

theorem style_transitivity_witness:
  "reaches twoHopManifest mainEntry sheetS \<and> isStyles (src sheetS) \<and>
   resolveEntry 3 Map.empty twoHopManifest mainEntry =
     Inr \<lparr>entryName_of = ''main'', styleFiles = [Some ''s.222.css''],
          jsFiles = [Some ''main.000.js'']\<rparr> \<and>
   file' sheetS \<in> set [Some ''s.222.css'']"
  using style_transitivity [OF reaches_twoHop isStyles_sheetS resolveEntry_twoHop]
    reaches_twoHop isStyles_sheetS resolveEntry_twoHop
  by simp

text \<open>
  Claim C3. Leaf-stylesheet rule: an entry whose own source is a stylesheet resolves,
  whatever its \<open>css\<close> and \<open>imports'\<close> fields and whatever the manifest holds, to the style
  set that has its own file and nothing else, and to the empty script set. (The stack
  admits the one call the resolution makes.)
\<close>

theorem leaf_stylesheet:
  assumes "isStyles (src e)" and "0 < depth"
  shows "\<exists>nm. entryName byPath e = Inr nm \<and>
           resolveEntry depth byPath manifest e =
             Inr \<lparr>entryName_of = nm, styleFiles = [file' e], jsFiles = []\<rparr>"
proof -
  from assms(1) obtain s where s: "src e = Some s"
    by (cases "src e") (auto simp: isStyles_undefined)
  then have "\<exists>nm. entryName byPath e = Inr nm"
    by (simp add: entryName_def split: option.split)
  then obtain nm where nm: "entryName byPath e = Inr nm" ..
  from assms(2) obtain d where "depth = Suc d" by (cases depth) auto
  with assms(1) nm show ?thesis
    by (simp add: resolveEntry_def Set_add_def)
qed


lemma isStyles_sassEntry: "isStyles (src sassEntry)"
  by code_simp

theorem leaf_stylesheet_witness:
  "isStyles (src sassEntry) \<and> (0::nat) < 1 \<and>
   (\<exists>nm. entryName Map.empty sassEntry = Inr nm \<and>
      resolveEntry 1 Map.empty [] sassEntry =
        Inr \<lparr>entryName_of = nm, styleFiles = [file' sassEntry], jsFiles = []\<rparr>)"
  using leaf_stylesheet [OF isStyles_sassEntry, of 1 Map.empty "[]"] isStyles_sassEntry
  by simp

text \<open>
  Claim C4. Dedup with order: the style files resolved for an entry hold no path twice,
  and they are the paths the traversal passes to \<^verbatim>\<open>styleFiles.add\<close>, in the order of the
  calls, each kept at its first occurrence and dropped at every later one.
\<close>

theorem dedup_with_order:
  assumes "resolveEntry depth byPath manifest e = Inr res"
  shows "distinct (styleFiles res) \<and>
         (\<exists>adds. encountered depth manifest (Some e) = Inr adds \<and> styleFiles res = firstOcc adds)"
proof -
  from resolveEntry_styleFiles [OF assms]
  obtain adds where "encountered depth manifest (Some e) = Inr adds"
    and "styleFiles res = fold Set_add adds []"
    by (auto simp: handleEntryImports_encountered split: sum.splits)
  then show ?thesis
    by (auto simp: fold_Set_add_firstOcc distinct_firstOcc)
qed


lemma resolveEntry_shared:
  "resolveEntry 3 Map.empty sharedStyleManifest pageEntry =
     Inr \<lparr>entryName_of = ''page'', styleFiles = [Some ''x.css'', Some ''y.css'', Some ''z.css''],
          jsFiles = [Some ''page.js'']\<rparr>"
  by code_simp

lemma encountered_shared:
  "encountered 3 sharedStyleManifest (Some pageEntry) =
     Inr [Some ''x.css'', Some ''y.css'', Some ''x.css'', Some ''y.css'', Some ''z.css'']"
  by code_simp

theorem dedup_with_order_witness:
  "resolveEntry 3 Map.empty sharedStyleManifest pageEntry =
     Inr \<lparr>entryName_of = ''page'', styleFiles = [Some ''x.css'', Some ''y.css'', Some ''z.css''],
          jsFiles = [Some ''page.js'']\<rparr> \<and>
   distinct [Some ''x.css'', Some ''y.css'', Some ''z.css''] \<and>
   (\<exists>adds. encountered 3 sharedStyleManifest (Some pageEntry) = Inr adds \<and>
      [Some ''x.css'', Some ''y.css'', Some ''z.css''] = firstOcc adds)"
  using dedup_with_order [OF resolveEntry_shared] resolveEntry_shared
  by simp

lemma resolveEntry_assigns:
  assumes "resolveEntry depth byPath manifest e = Inr r"
    and "src e = Some s" and "file' e = Some f"
  shows "(if isStyles (src e)
          then styleFiles r = [Some f] \<and> jsFiles r = [] \<and>
               renderEntry r = entryTag (entryName_of r) (assignStyleFiles [Some f])
          else jsFiles r = [Some f] \<and>
               renderEntry r = entryTag (entryName_of r)
                 ((if styleFiles r = [] then [] else assignStyleFiles (styleFiles r)) @
                  assignScriptFiles [Some f])) \<and>
         \<not> (styleFiles r = [] \<and> jsFiles r = [])"
proof (cases "isStyles (src e)")
  case True
  with assms resolveEntry_own_style [OF assms(1)] resolveEntry_jsFiles [OF assms(1)]
  show ?thesis by (simp add: renderEntry_def assetsOf_def)
next
  case False
  with assms resolveEntry_jsFiles [OF assms(1)]
  show ?thesis by (simp add: renderEntry_def assetsOf_def)
qed

text \<open>
  Claim C10. When every entry of the manifest carries its \<open>src\<close> and its \<open>file'\<close>, every
  branch that is emitted has an assignment line. For an entry with a stylesheet source
  the style set is the entry's own file, the script set is empty and the branch is the
  name line followed by the line \<^verbatim>\<open>      assign style_files = "<file>"\<close>. For any other
  entry the script set is the entry's own file and the branch ends with the line
  \<^verbatim>\<open>      assign js_files = "<file>"\<close>, after the name line and the style line if
  there are style files. The two sets are never both empty.
\<close>

theorem branch_assigns:
  assumes "generateEntries depth inp manifest = Inr allEntries"
    and "list_all (\<lambda>e. src e \<noteq> None \<and> file' e \<noteq> None)
           (filter (\<lambda>e. isEntry e = Some True) (map snd manifest))"
  shows "list_all2
           (\<lambda>e branch. \<exists>r f. resolveEntry depth (entryNameByPath inp) manifest e = Inr r \<and>
              file' e = Some f \<and>
              (if isStyles (src e)
               then styleFiles r = [Some f] \<and> jsFiles r = [] \<and>
                    branch =
                      [CHR 0x0A] @ ''    when '' @ [CHR 0x27] @ entryName_of r @ [CHR 0x27] @
                      [CHR 0x0A] @ ''      assign style_files = '' @ [CHR 0x22] @ f @ [CHR 0x22]
               else jsFiles r = [Some f] \<and>
                    branch =
                      [CHR 0x0A] @ ''    when '' @ [CHR 0x27] @ entryName_of r @ [CHR 0x27] @
                      (if styleFiles r = [] then []
                       else [CHR 0x0A] @ ''      assign style_files = '' @ [CHR 0x22] @
                            (case hd (styleFiles r) of None \<Rightarrow> [] | Some s \<Rightarrow> s) @
                        concat (map (\<lambda>y. ''|'' @ (case y of None \<Rightarrow> [] | Some s \<Rightarrow> s))
                                  (tl (styleFiles r))) @ [CHR 0x22]) @
                      [CHR 0x0A] @ ''      assign js_files = '' @ [CHR 0x22] @ f @ [CHR 0x22]) \<and>
              \<not> (styleFiles r = [] \<and> jsFiles r = []))
           (filter (\<lambda>e. isEntry e = Some True) (map snd manifest)) allEntries"
proof -
  let ?es = "filter (\<lambda>e. isEntry e = Some True) (map snd manifest)"
  from generateEntries_resolutions [OF assms(1)]
  have all2: "list_all2 (\<lambda>e branch. \<exists>r. resolveEntry depth (entryNameByPath inp) manifest e = Inr r \<and>
                 branch = renderEntry r) ?es allEntries" .
  show ?thesis
    unfolding list_all2_conv_all_nth
  proof (intro conjI allI impI)
    from all2 show "length ?es = length allEntries" by (rule list_all2_lengthD)
  next
    fix i
    assume i: "i < length ?es"
    with all2 obtain r where r: "resolveEntry depth (entryNameByPath inp) manifest (?es ! i) = Inr r"
      and b: "allEntries ! i = renderEntry r"
      by (auto simp: list_all2_conv_all_nth)
    from assms(2) i obtain s f where sf: "src (?es ! i) = Some s" "file' (?es ! i) = Some f"
      by (auto simp: list_all_length)
    from resolveEntry_assigns [OF r sf]
    have sets: "(if isStyles (src (?es ! i)) then styleFiles r = [Some f] \<and> jsFiles r = []
                 else jsFiles r = [Some f]) \<and> \<not> (styleFiles r = [] \<and> jsFiles r = [])"
      by (simp split: if_splits)
    show "\<exists>r f. resolveEntry depth (entryNameByPath inp) manifest (?es ! i) = Inr r \<and>
              file' (?es ! i) = Some f \<and>
              (if isStyles (src (?es ! i))
               then styleFiles r = [Some f] \<and> jsFiles r = [] \<and>
                    allEntries ! i =
                      [CHR 0x0A] @ ''    when '' @ [CHR 0x27] @ entryName_of r @ [CHR 0x27] @
                      [CHR 0x0A] @ ''      assign style_files = '' @ [CHR 0x22] @ f @ [CHR 0x22]
               else jsFiles r = [Some f] \<and>
                    allEntries ! i =
                      [CHR 0x0A] @ ''    when '' @ [CHR 0x27] @ entryName_of r @ [CHR 0x27] @
                      (if styleFiles r = [] then []
                       else [CHR 0x0A] @ ''      assign style_files = '' @ [CHR 0x22] @
                            (case hd (styleFiles r) of None \<Rightarrow> [] | Some s \<Rightarrow> s) @
                        concat (map (\<lambda>y. ''|'' @ (case y of None \<Rightarrow> [] | Some s \<Rightarrow> s))
                                  (tl (styleFiles r))) @ [CHR 0x22]) @
                      [CHR 0x0A] @ ''      assign js_files = '' @ [CHR 0x22] @ f @ [CHR 0x22]) \<and>
              \<not> (styleFiles r = [] \<and> jsFiles r = [])"
    proof (intro exI [of _ r] exI [of _ f] conjI)
      show "resolveEntry depth (entryNameByPath inp) manifest (?es ! i) = Inr r" by (rule r)
      show "file' (?es ! i) = Some f" by (rule sf)
      from sets show "\<not> (styleFiles r = [] \<and> jsFiles r = [])" by simp
      from sets show "if isStyles (src (?es ! i))
               then styleFiles r = [Some f] \<and> jsFiles r = [] \<and>
                    allEntries ! i =
                      [CHR 0x0A] @ ''    when '' @ [CHR 0x27] @ entryName_of r @ [CHR 0x27] @
                      [CHR 0x0A] @ ''      assign style_files = '' @ [CHR 0x22] @ f @ [CHR 0x22]
               else jsFiles r = [Some f] \<and>
                    allEntries ! i =
                      [CHR 0x0A] @ ''    when '' @ [CHR 0x27] @ entryName_of r @ [CHR 0x27] @
                      (if styleFiles r = [] then []
                       else [CHR 0x0A] @ ''      assign style_files = '' @ [CHR 0x22] @
                            (case hd (styleFiles r) of None \<Rightarrow> [] | Some s \<Rightarrow> s) @
                        concat (map (\<lambda>y. ''|'' @ (case y of None \<Rightarrow> [] | Some s \<Rightarrow> s))
                                  (tl (styleFiles r))) @ [CHR 0x22]) @
                      [CHR 0x0A] @ ''      assign js_files = '' @ [CHR 0x22] @ f @ [CHR 0x22]"
        unfolding b renderEntry_text by (simp split: if_splits)
    qed
  qed
qed

lemma scenario_entries_complete:
  "list_all (\<lambda>e. src e \<noteq> None \<and> file' e \<noteq> None)
     (filter (\<lambda>e. isEntry e = Some True) (map snd scenarioManifest))"
  by (simp add: scenarioManifest_def themeEntry_def noFields_def)

theorem branch_assigns_witness:
  "generateEntries 100 [(''theme'', ''./src/theme.js'')] scenarioManifest = Inr [themeBranch] \<and>
   list_all2
     (\<lambda>e branch. \<exists>r f. resolveEntry 100 (entryNameByPath [(''theme'', ''./src/theme.js'')])
                          scenarioManifest e = Inr r \<and>
        file' e = Some f \<and>
        (if isStyles (src e)
         then styleFiles r = [Some f] \<and> jsFiles r = [] \<and>
              branch =
                [CHR 0x0A] @ ''    when '' @ [CHR 0x27] @ entryName_of r @ [CHR 0x27] @
                [CHR 0x0A] @ ''      assign style_files = '' @ [CHR 0x22] @ f @ [CHR 0x22]
         else jsFiles r = [Some f] \<and>
              branch =
                [CHR 0x0A] @ ''    when '' @ [CHR 0x27] @ entryName_of r @ [CHR 0x27] @
                (if styleFiles r = [] then []
                 else [CHR 0x0A] @ ''      assign style_files = '' @ [CHR 0x22] @
                      (case hd (styleFiles r) of None \<Rightarrow> [] | Some s \<Rightarrow> s) @
                        concat (map (\<lambda>y. ''|'' @ (case y of None \<Rightarrow> [] | Some s \<Rightarrow> s))
                                  (tl (styleFiles r))) @ [CHR 0x22]) @
                [CHR 0x0A] @ ''      assign js_files = '' @ [CHR 0x22] @ f @ [CHR 0x22]) \<and>
        \<not> (styleFiles r = [] \<and> jsFiles r = []))
     (filter (\<lambda>e. isEntry e = Some True) (map snd scenarioManifest)) [themeBranch] \<and>
   themeBranch =
     [CHR 0x0A] @ ''    when '' @ [CHR 0x27] @ ''theme'' @ [CHR 0x27] @
     [CHR 0x0A] @ ''      assign style_files = '' @ [CHR 0x22] @ ''theme.css'' @ [CHR 0x22] @
     [CHR 0x0A] @ ''      assign js_files = '' @ [CHR 0x22] @ ''theme.abc123.js'' @ [CHR 0x22]"
  using branch_assigns [OF generateEntries_scenario scenario_entries_complete]
    generateEntries_scenario themeBranch_text
  by simp

subsection \<open>The name of an entry\<close>

lemma lastIndexOf_absent: "c \<notin> set s \<Longrightarrow> lastIndexOf s c = - 1"
  by (induction s) (auto simp: Let_def)

lemma lastIndexOf_last: "c \<notin> set ys \<Longrightarrow> lastIndexOf (xs @ c # ys) c = int (length xs)"
  by (induction xs) (auto simp: Let_def lastIndexOf_absent)

lemma substring_stem:
  "substring (dir @ stem @ rest) (int (length dir)) (int (length dir + length stem)) = stem"
  by (simp add: substring_def Let_def min_def max_def)

lemma fold_assignEntryName_Some:
  "fold assignEntryName inp tbl s = Some key \<Longrightarrow>
     (\<exists>path. (key, path) \<in> set inp \<and> normalizePath path = s) \<or> tbl s = Some key"
proof (induction inp arbitrary: tbl)
  case Nil
  then show ?case by simp
next
  case (Cons a inp)
  from Cons.prems have "fold assignEntryName inp (assignEntryName a tbl) s = Some key" by simp
  from Cons.IH [OF this] show ?case
  proof
    assume "\<exists>path. (key, path) \<in> set inp \<and> normalizePath path = s"
    then show ?thesis by auto
  next
    assume "assignEntryName a tbl s = Some key"
    then have "(fst a = key \<and> normalizePath (snd a) = s) \<or> tbl s = Some key"
      by (auto simp: assignEntryName_def Let_def split: if_splits)
    then show ?thesis
    proof
      assume "fst a = key \<and> normalizePath (snd a) = s"
      then have "(key, snd a) \<in> set (a # inp) \<and> normalizePath (snd a) = s"
        by (cases a) auto
      then show ?thesis by blast
    next
      assume "tbl s = Some key"
      then show ?thesis by simp
    qed
  qed
qed

lemma fold_assignEntryName_None:
  "fold assignEntryName inp tbl s = None \<longleftrightarrow>
     tbl s = None \<and> (s = ''__proto__'' \<or> s \<notin> normalizePath ` snd ` set inp)"
proof (induction inp arbitrary: tbl)
  case Nil
  show ?case by simp
next
  case (Cons a inp)
  have "assignEntryName a tbl s = None \<longleftrightarrow>
          tbl s = None \<and> (s = ''__proto__'' \<or> s \<noteq> normalizePath (snd a))"
    by (auto simp: assignEntryName_def Let_def)
  then show ?case by (auto simp: Cons.IH)
qed

lemma entryNameByPath_Some:
  assumes "entryNameByPath inp s = Some key"
  shows "(\<exists>path. (key, path) \<in> set inp \<and> normalizePath path = s) \<or>
         map_of Object_prototype s = Some key"
  using assms unfolding entryNameByPath_def by (rule fold_assignEntryName_Some)

lemma Object_prototype_proto: "map_of Object_prototype ''__proto__'' = Some ''[object Object]''"
  by (simp add: Object_prototype_def)

lemma entryNameByPath_None:
  "entryNameByPath inp s = None \<longleftrightarrow>
     map_of Object_prototype s = None \<and> s \<notin> normalizePath ` snd ` set inp"
  unfolding entryNameByPath_def fold_assignEntryName_None
  using Object_prototype_proto by auto

lemma entryNameByPath_last:
  assumes "normalizePath path \<noteq> ''__proto__''"
  shows "entryNameByPath (inp @ [(key, path)]) (normalizePath path) = Some key"
  using assms by (simp add: entryNameByPath_def assignEntryName_def)

lemma entryName_inherited:
  "entryName (entryNameByPath []) inheritedEntry = Inr ''function toString() { [native code] }''"
  by (simp add: entryName_def entryNameByPath_def inheritedEntry_def noFields_def
        Object_prototype_def nativeFunction_def)

lemma entryName_named: "name e = Some n \<Longrightarrow> entryName byPath e = Inr n"
  by (simp add: entryName_def)

lemma entryName_configured:
  "name e = None \<Longrightarrow> src e = Some s \<Longrightarrow> byPath s = Some key \<Longrightarrow> entryName byPath e = Inr key"
  by (simp add: entryName_def)

lemma entryName_stem:
  assumes "name e = None" and "src e = Some (dir @ stem @ ''.'' @ ext)"
    and "byPath (dir @ stem @ ''.'' @ ext) = None"
    and "dir = [] \<or> last dir = CHR ''/''"
    and "CHR ''/'' \<notin> set (stem @ ''.'' @ ext)" and "CHR ''.'' \<notin> set ext"
  shows "entryName byPath e = Inr stem"
proof -
  let ?s = "dir @ stem @ ''.'' @ ext"
  have dot: "lastIndexOf ?s (CHR ''.'') = int (length dir + length stem)"
    using lastIndexOf_last [of "CHR ''.''" ext "dir @ stem"] assms(6) by simp
  have slash: "lastIndexOf ?s (CHR ''/'') + 1 = int (length dir)"
  proof (cases "dir = []")
    case True
    with assms(5) show ?thesis by (simp add: lastIndexOf_absent)
  next
    case False
    with assms(4) obtain d where d: "dir = d @ [CHR ''/'']"
      by (metis append_butlast_last_id)
    have "lastIndexOf (d @ CHR ''/'' # (stem @ ''.'' @ ext)) (CHR ''/'') = int (length d)"
      by (rule lastIndexOf_last) (use assms(5) in simp)
    then show ?thesis by (simp add: d)
  qed
  have "substring ?s (lastIndexOf ?s (CHR ''/'') + 1) (lastIndexOf ?s (CHR ''.'')) = stem"
    unfolding dot slash by (rule substring_stem)
  with assms(1-3) show ?thesis by (simp add: entryName_def)
qed


text \<open>
  Claim C5. The name of an entry is its \<open>name\<close> when it has one (\<open>entryName_named\<close>), else
  the configured key of its source path (\<open>entryName_configured\<close>, \<open>entryNameByPath_Some\<close>),
  else, for a source of the form directory, stem, dot, extension, the stem
  (\<open>entryName_stem\<close>). For a source with no dot after its last slash the third rule gives
  another text: \<^verbatim>\<open>substring\<close> swaps its two indices, and the name is the part of the
  source from its last dot, or from its start, up to and including its last slash.
\<close>

theorem entryName_without_extension:
  "entryName (entryNameByPath []) dottedDirEntry = Inr ''.v2/'' \<and>
   entryName (entryNameByPath []) plainEntry = Inr ''src/''"
  by (simp add: entryName_def entryNameByPath_def dottedDirEntry_def plainEntry_def noFields_def
        substring_def Object_prototype_def)

subsection \<open>The manifest file after closeBundle\<close>

lemma generateSnippet_manifest_file:
  assumes "generateSnippet h p w = Inr w1"
  shows "\<exists>text. fs w (manifestPath h p) = Some (File text)"
    and "\<exists>text. fs w1 (manifestPath h p) = Some (File text)"
    and "console w1 = console w"
proof -
  from assms obtain manifestFile body where
    rd: "readFile w (manifestPath h p) = Inr manifestFile"
    and wr: "writeFile (snippetPath h p) body w = Inr w1"
    unfolding generateSnippet_def by (auto split: sum.splits option.splits)
  from rd show a: "\<exists>text. fs w (manifestPath h p) = Some (File text)"
    by (auto simp: readFile_def split: option.splits node.splits)
  from wr have w1: "w1 = w\<lparr>fs := (fs w)(snippetPath h p \<mapsto> File body)\<rparr>"
    by (auto simp: writeFile_def split: if_splits)
  with a show "\<exists>text. fs w1 (manifestPath h p) = Some (File text)" by auto
  from w1 show "console w1 = console w" by simp
qed

lemma closeBundle_generated:
  assumes "generateSnippet h p w = Inr w1"
  shows "closeBundle h p w = (if isDev p then w1 else w1\<lparr>fs := (fs w1)(manifestPath h p := None)\<rparr>)"
proof -
  from generateSnippet_manifest_file [OF assms]
  obtain t t1 where "fs w (manifestPath h p) = Some (File t)" "fs w1 (manifestPath h p) = Some (File t1)"
    by blast
  with assms show ?thesis
    by (simp add: closeBundle_def checkFileExists_def tryBlock_def unlink_def)
qed

lemma closeBundle_failed:
  assumes "generateSnippet h p w = Inl err" and "checkFileExists w (manifestPath h p)"
  shows "closeBundle h p w = w\<lparr>console := console w @ [err]\<rparr>"
  using assms by (simp add: closeBundle_def tryBlock_def)


text \<open>
  Claim C7. The manifest file is deleted by \<open>closeBundle\<close> (it is there before and gone
  after) exactly when the snippet was generated (the manifest read and parsed, the
  entries resolved, the snippet written) and the mode is not \<^verbatim>\<open>development\<close>. An error
  in those steps is logged and nothing else changes: \<open>closeBundle\<close> returns, and the
  manifest file is where it was.
\<close>

theorem manifest_deleted_iff:
  "((fs w (manifestPath h p) \<noteq> None \<and> fs (closeBundle h p w) (manifestPath h p) = None)
      \<longleftrightarrow> (\<exists>w1. generateSnippet h p w = Inr w1) \<and> \<not> isDev p) \<and>
   (\<forall>err. checkFileExists w (manifestPath h p) \<and> generateSnippet h p w = Inl err \<longrightarrow>
      closeBundle h p w = w\<lparr>console := console w @ [err]\<rparr>)"
proof
  show "(fs w (manifestPath h p) \<noteq> None \<and> fs (closeBundle h p w) (manifestPath h p) = None)
     \<longleftrightarrow> (\<exists>w1. generateSnippet h p w = Inr w1) \<and> \<not> isDev p"
  proof (cases "generateSnippet h p w")
    case (Inl err)
    then have "fs (closeBundle h p w) = fs w"
      by (cases "checkFileExists w (manifestPath h p)") (simp_all add: closeBundle_def tryBlock_def)
    with Inl show ?thesis by auto
  next
    case (Inr w1)
    from generateSnippet_manifest_file [OF Inr] closeBundle_generated [OF Inr] Inr
    show ?thesis by auto
  qed
  show "\<forall>err. checkFileExists w (manifestPath h p) \<and> generateSnippet h p w = Inl err \<longrightarrow>
      closeBundle h p w = w\<lparr>console := console w @ [err]\<rparr>"
    by (auto intro: closeBundle_failed)
qed

lemma generateSnippet_malformed:
  "generateSnippet exampleHost examplePlugin (exampleWorld ''{'') = Inl SyntaxError"
  by (simp add: generateSnippet_def readFile_def manifestPath_def exampleHost_def
        examplePlugin_def exampleWorld_def)

lemma checkFileExists_example:
  "checkFileExists (exampleWorld manifestFile) (manifestPath exampleHost examplePlugin)"
  by (simp add: checkFileExists_def manifestPath_def exampleHost_def examplePlugin_def
        exampleWorld_def)

theorem manifest_deleted_iff_witness:
  "fs (exampleWorld ''scenario'') (manifestPath exampleHost examplePlugin) \<noteq> None \<and>
   fs (closeBundle exampleHost examplePlugin (exampleWorld ''scenario''))
      (manifestPath exampleHost examplePlugin) = None \<and>
   generateSnippet exampleHost examplePlugin (exampleWorld ''scenario'') = Inr exampleWritten \<and>
   \<not> isDev examplePlugin \<and>
   checkFileExists (exampleWorld ''{'') (manifestPath exampleHost examplePlugin) \<and>
   generateSnippet exampleHost examplePlugin (exampleWorld ''{'') = Inl SyntaxError \<and>
   closeBundle exampleHost examplePlugin (exampleWorld ''{'') =
     (exampleWorld ''{'')\<lparr>console := console (exampleWorld ''{'') @ [SyntaxError]\<rparr>"
  using manifest_deleted_iff [of "exampleWorld ''scenario''" exampleHost examplePlugin]
    manifest_deleted_iff [of "exampleWorld ''{''" exampleHost examplePlugin]
    generateSnippet_scenario generateSnippet_malformed checkFileExists_example [of "''{''"]
  by (simp add: isDev_def examplePlugin_def)

subsection \<open>The output directory after writeBundle\<close>

lemma firstMatch_None: "firstMatch m xs = None \<longleftrightarrow> (\<forall>i \<in> set xs. m i = None)"
  by (induction xs) (auto split: option.splits)

lemma matcherOf_None: "matcherOf r S i = None \<longleftrightarrow> rx_match r (drop i S) = []"
  by (simp add: matcherOf_def split: list.splits)

lemma suffixes_drop: "set (suffixes s) = (\<lambda>i. drop i s) ` {0..length s}"
proof -
  have "suffix t s \<longleftrightarrow> (\<exists>i \<le> length s. t = drop i s)" for t
  proof
    assume "suffix t s"
    then obtain u where "s = u @ t" by (auto simp: suffix_def)
    then have "t = drop (length u) s" "length u \<le> length s" by simp_all
    then show "\<exists>i \<le> length s. t = drop i s" by blast
  next
    assume "\<exists>i \<le> length s. t = drop i s"
    then show "suffix t s" by (auto simp: suffix_drop)
  qed
  then show ?thesis by (auto simp: set_suffixes_eq)
qed

text \<open>The test of a literal without flags is the test that \<open>isStyles\<close> uses.\<close>

lemma matches_literal: "matches (RegExp_literal r g y) s = RegExp_test r s"
proof -
  have "RegExp_test r s \<longleftrightarrow> (\<exists>i \<in> {0..length s}. rx_match r (drop i s) \<noteq> [])"
    by (simp add: RegExp_test_def list_ex_iff suffixes_drop)
  also have "\<dots> \<longleftrightarrow> matches (RegExp_literal r g y) s"
    by (auto simp: matches_def RegExp_literal_def firstMatch_None matcherOf_None
        simp del: upt_Suc)
  finally show ?thesis ..
qed

lemma test_flagless:
  "\<not> global R \<Longrightarrow> \<not> sticky R \<Longrightarrow> RegExp_prototype_test R S = (matches R S, R)"
  by (simp add: RegExp_prototype_test_def matches_def Let_def del: upt_Suc split: option.split)

text \<open>
  What the hook deletes, whatever the flags: the names whose paths, resolved against the
  recorded output directory, it hands to \<^verbatim>\<open>unlink\<close>.
\<close>

lemma cleanupFiles_unlinked:
  "cleanupFiles h p fileNames files R st = Inr st' \<Longrightarrow>
     \<exists>names. set names \<subseteq> set files \<and>
       unlinked st' = unlinked st @ map (\<lambda>file. resolve h [outDir p, file]) names \<and>
       remaining st' = filter (\<lambda>entry. fst entry \<notin> set names) (remaining st)"
proof (induction files arbitrary: R st)
  case Nil
  then have "st' = st" by simp
  then have "set [] \<subseteq> set ([] :: string list) \<and>
       unlinked st' = unlinked st @ map (\<lambda>file. resolve h [outDir p, file]) [] \<and>
       remaining st' = filter (\<lambda>entry. fst entry \<notin> set []) (remaining st)"
    by simp
  then show ?case by blast
next
  case (Cons x files)
  let ?R' = "snd (RegExp_prototype_test R x)"
  show ?case
  proof (cases "fst (RegExp_prototype_test R x) \<and> x \<notin> set fileNames")
    case True
    with Cons.prems obtain d1 where d1: "unlinkIn x (remaining st) = Inr d1"
      and rest: "cleanupFiles h p fileNames files ?R'
                   (st\<lparr>remaining := d1, consoleReport := consoleReport st @ x @ nl,
                       unlinked := unlinked st @ [resolve h [outDir p, x]]\<rparr>) = Inr st'"
      by (auto simp: Let_def split: sum.splits)
    from d1 have d1': "d1 = filter (\<lambda>entry. fst entry \<noteq> x) (remaining st)"
      by (auto simp: unlinkIn_def split: option.splits node.splits)
    from Cons.IH [OF rest] obtain names where names: "set names \<subseteq> set files"
      "unlinked st' = (unlinked st @ [resolve h [outDir p, x]]) @
                        map (\<lambda>file. resolve h [outDir p, file]) names"
      "remaining st' = filter (\<lambda>entry. fst entry \<notin> set names) d1"
      by auto
    have "set (x # names) \<subseteq> set (x # files) \<and>
       unlinked st' = unlinked st @ map (\<lambda>file. resolve h [outDir p, file]) (x # names) \<and>
       remaining st' = filter (\<lambda>entry. fst entry \<notin> set (x # names)) (remaining st)"
      using names unfolding d1' by (auto intro!: filter_cong)
    then show ?thesis by blast
  next
    case False
    with Cons.prems have "cleanupFiles h p fileNames files ?R' st = Inr st'"
      by (auto simp: Let_def)
    from Cons.IH [OF this] obtain names where "set names \<subseteq> set files"
      "unlinked st' = unlinked st @ map (\<lambda>file. resolve h [outDir p, file]) names"
      "remaining st' = filter (\<lambda>entry. fst entry \<notin> set names) (remaining st)"
      by auto
    then have "set names \<subseteq> set (x # files) \<and>
       unlinked st' = unlinked st @ map (\<lambda>file. resolve h [outDir p, file]) names \<and>
       remaining st' = filter (\<lambda>entry. fst entry \<notin> set names) (remaining st)"
      by auto
    then show ?thesis by blast
  qed
qed

lemma writeBundle_unlinked:
  assumes "writeBundle h p R fileNames dir = Inr st"
  shows "\<exists>names. set names \<subseteq> set (readdir dir) \<and>
           unlinked st = map (\<lambda>file. resolve h [outDir p, file]) names \<and>
           remaining st = filter (\<lambda>entry. fst entry \<notin> set names) dir"
  using cleanupFiles_unlinked [OF assms [unfolded writeBundle_def]] by simp

text \<open>
  For a pattern with neither the \<^verbatim>\<open>g\<close> nor the \<^verbatim>\<open>y\<close> flag the hook deletes a file
  exactly when the pattern matches its name and the name is not a key of the bundle.
\<close>

lemma cleanupFiles_flagless:
  assumes "\<not> global R" and "\<not> sticky R"
  shows "cleanupFiles h p fileNames files R st = Inr st' \<Longrightarrow>
     remaining st' =
       filter (\<lambda>entry. \<not> (fst entry \<in> set files \<and> matches R (fst entry) \<and>
                            fst entry \<notin> set fileNames)) (remaining st)"
proof (induction files arbitrary: st)
  case Nil
  then show ?case by simp
next
  case (Cons x files)
  have tested: "RegExp_prototype_test R x = (matches R x, R)"
    using assms by (rule test_flagless)
  show ?case
  proof (cases "matches R x \<and> x \<notin> set fileNames")
    case True
    with Cons.prems tested obtain d1 where d1: "unlinkIn x (remaining st) = Inr d1"
      and rest: "cleanupFiles h p fileNames files R
                   (st\<lparr>remaining := d1, consoleReport := consoleReport st @ x @ nl,
                       unlinked := unlinked st @ [resolve h [outDir p, x]]\<rparr>) = Inr st'"
      by (auto simp: Let_def split: sum.splits)
    from d1 have "d1 = filter (\<lambda>entry. fst entry \<noteq> x) (remaining st)"
      by (auto simp: unlinkIn_def split: option.splits node.splits)
    with Cons.IH [OF rest] True show ?thesis
      by (auto intro!: filter_cong)
  next
    case False
    with Cons.prems tested have "cleanupFiles h p fileNames files R st = Inr st'"
      by (auto simp: Let_def)
    from Cons.IH [OF this] False show ?thesis
      by (auto intro!: filter_cong)
  qed
qed

lemma writeBundle_flagless:
  assumes "\<not> global R" and "\<not> sticky R"
    and "writeBundle h p R fileNames dir = Inr st"
    and "(f, File content) \<in> set dir"
  shows "(f, File content) \<notin> set (remaining st) \<longleftrightarrow> matches R f \<and> f \<notin> set fileNames"
proof -
  from cleanupFiles_flagless [OF assms(1,2) assms(3) [unfolded writeBundle_def]]
  have "remaining st =
      filter (\<lambda>entry. \<not> (fst entry \<in> set (readdir dir) \<and> matches R (fst entry) \<and>
                            fst entry \<notin> set fileNames)) dir"
    by simp
  with assms(4) show ?thesis by (auto simp: readdir_def intro: rev_image_eqI)
qed

text \<open>
  The hook returns when the names of the directory are distinct and no entry outside
  the bundle is a directory.
\<close>

lemma map_of_filter_other:
  "f \<noteq> x \<Longrightarrow> map_of (filter (\<lambda>entry. fst entry \<noteq> x) dir) f = map_of dir f"
  by (induction dir) auto

lemma cleanupFiles_returns:
  assumes "distinct files"
    and "\<And>f. f \<in> set files \<Longrightarrow> f \<notin> set fileNames \<Longrightarrow>
           \<exists>content. map_of (remaining st) f = Some (File content)"
  shows "\<exists>st'. cleanupFiles h p fileNames files R st = Inr st'"
  using assms
proof (induction files arbitrary: R st)
  case Nil
  show ?case by simp
next
  case (Cons x files)
  let ?R' = "snd (RegExp_prototype_test R x)"
  show ?case
  proof (cases "fst (RegExp_prototype_test R x) \<and> x \<notin> set fileNames")
    case True
    with Cons.prems(2) [of x] obtain content where "map_of (remaining st) x = Some (File content)"
      by auto
    then have un: "unlinkIn x (remaining st) = Inr (filter (\<lambda>entry. fst entry \<noteq> x) (remaining st))"
      by (simp add: unlinkIn_def)
    let ?st1 = "st\<lparr>remaining := filter (\<lambda>entry. fst entry \<noteq> x) (remaining st),
                   consoleReport := consoleReport st @ x @ nl,
                   unlinked := unlinked st @ [resolve h [outDir p, x]]\<rparr>"
    have "\<exists>st'. cleanupFiles h p fileNames files ?R' ?st1 = Inr st'"
    proof (rule Cons.IH)
      from Cons.prems(1) show "distinct files" by simp
    next
      fix f
      assume f: "f \<in> set files" "f \<notin> set fileNames"
      with Cons.prems(1) have "f \<noteq> x" by auto
      with Cons.prems(2) [of f] f
      show "\<exists>content. map_of (remaining ?st1) f = Some (File content)"
        by (simp add: map_of_filter_other)
    qed
    with True un show ?thesis by (simp add: Let_def)
  next
    case False
    have "\<exists>st'. cleanupFiles h p fileNames files ?R' st = Inr st'"
      by (rule Cons.IH) (use Cons.prems in auto)
    with False show ?thesis by (auto simp: Let_def)
  qed
qed

lemma writeBundle_returns:
  assumes "distinct (map fst dir)"
    and "\<And>f. f \<notin> set fileNames \<Longrightarrow> (f, Directory) \<notin> set dir"
  shows "\<exists>st. writeBundle h p R fileNames dir = Inr st"
  unfolding writeBundle_def readdir_def
proof (rule cleanupFiles_returns [OF assms(1)])
  fix f
  assume f: "f \<in> set (map fst dir)" "f \<notin> set fileNames"
  then obtain k where k: "(f, k) \<in> set dir" by auto
  with assms(1) have "map_of dir f = Some k" by simp
  moreover from assms(2) [OF f(2)] k have "k \<noteq> Directory" by auto
  ultimately show "\<exists>content. map_of (remaining \<lparr>remaining = dir, consoleReport = [], unlinked = []\<rparr>) f =
      Some (File content)"
    by (cases k) auto
qed

text \<open>The example of the specification: of the three files only \<^verbatim>\<open>a.min.js\<close> is deleted.\<close>

lemma writeBundle_example:
  "writeBundle exampleHost examplePlugin (RegExp_literal minRegex False False) [''b.min.js'']
     exampleDirectory =
     Inr \<lparr>remaining = [(''b.min.js'', File []), (''c.txt'', File [])],
          consoleReport = ''a.min.js'' @ nl,
          unlinked = [''/work/assets/a.min.js'']\<rparr>"
  by code_simp

lemma matches_stale: "matches (RegExp_literal minRegex True False) ''b.min.js''"
  by code_simp

text \<open>
  Claim C8. Cleanup precision: a file of the output directory is deleted exactly when
  the configured pattern matches its name and the name is not a key of the bundle. This
  holds for a pattern without the \<^verbatim>\<open>g\<close> and \<^verbatim>\<open>y\<close> flags (\<open>writeBundle_flagless\<close>), and
  for the example of the claim (\<open>writeBundle_example\<close>). With the \<^verbatim>\<open>g\<close> flag it does
  not: the hook tests every name on the same object, a match on one name leaves
  \<open>lastIndex\<close> at the end of that name, and the test of the next name starts there and
  fails. With the pattern \<^verbatim>\<open>/\.min\.(js|css)$/g\<close>, the files \<^verbatim>\<open>a.min.js\<close>,
  \<^verbatim>\<open>b.min.js\<close>, \<^verbatim>\<open>d.min.js\<close> and an empty bundle, \<^verbatim>\<open>b.min.js\<close> matches the pattern, is
  not in the bundle, and is left in the directory.
\<close>

theorem writeBundle_global_flag:
  "writeBundle exampleHost examplePlugin (RegExp_literal minRegex True False) [] staleDirectory =
     Inr \<lparr>remaining = [(''b.min.js'', File [])],
          consoleReport = ''a.min.js'' @ nl @ ''d.min.js'' @ nl,
          unlinked = [''/work/assets/a.min.js'', ''/work/assets/d.min.js'']\<rparr> \<and>
   matches (RegExp_literal minRegex True False) ''b.min.js'' \<and>
   (''b.min.js'', File []) \<in> set staleDirectory"
  by code_simp

subsection \<open>The recorded output directory\<close>

text \<open>
  Claim C9, as the code has it. After the configuration step of a new plugin the
  recorded output directory is \<^verbatim>\<open>build.outDir\<close>, or \<^verbatim>\<open>./assets\<close> when the configuration
  has none; the single plugin object removes one trailing slash from it, and
  \<^verbatim>\<open>dist/index.mjs\<close> records it unchanged. Every later path is \<^verbatim>\<open>path.resolve\<close> of the
  recorded directory and a file name: the manifest path with the manifest file name, and
  every path that the cleanup hands to \<^verbatim>\<open>unlink\<close> with the name of an entry of the
  directory, the entries that are gone afterwards being those so named.
\<close>

theorem recorded_outDir:
  "(let d = (case build_outDir c of None \<Rightarrow> ''./assets'' | Some d \<Rightarrow> d);
        recorded = (case v of
                      VitePlugin \<Rightarrow> (if endsWith d ''/'' then butlast d else d)
                    | ShopifyVitePlugin \<Rightarrow> d);
        manifestName = (case build_manifest c of ManifestName n \<Rightarrow> n | _ \<Rightarrow> ''_manifest.json'')
    in outDir (configure (newPlugin v opts) c) = recorded \<and>
       manifestPath h (configure (newPlugin v opts) c) = resolve h [recorded, manifestName] \<and>
       (\<forall>R fileNames dir st.
          writeBundle h (configure (newPlugin v opts) c) R fileNames dir = Inr st \<longrightarrow>
          (\<exists>names. set names \<subseteq> set (readdir dir) \<and>
             unlinked st = map (\<lambda>file. resolve h [recorded, file]) names \<and>
             remaining st = filter (\<lambda>entry. fst entry \<notin> set names) dir)))"
proof -
  define d where "d = (case build_outDir c of None \<Rightarrow> ''./assets'' | Some d \<Rightarrow> d)"
  define recorded where "recorded = (case v of
                      VitePlugin \<Rightarrow> (if endsWith d ''/'' then butlast d else d)
                    | ShopifyVitePlugin \<Rightarrow> d)"
  define manifestName where
    "manifestName = (case build_manifest c of ManifestName n \<Rightarrow> n | _ \<Rightarrow> ''_manifest.json'')"
  have rec: "outDir (configure (newPlugin v opts) c) = recorded"
    by (simp add: recorded_def d_def configure_def config_hook_def configResolved_def
          config_manifest_def Let_def newPlugin_def DEFAULT_OUT_DIR_def butlast_conv_take
          split: variant.split option.split)
  have man: "manifestFilename (configure (newPlugin v opts) c) = manifestName"
    by (simp add: manifestName_def configure_def config_hook_def configResolved_def
          config_manifest_def Let_def newPlugin_def
          split: variant.split manifestOption.split)
  have path: "manifestPath h (configure (newPlugin v opts) c) = resolve h [recorded, manifestName]"
    by (simp add: manifestPath_def rec man)
  have clean: "\<exists>names. set names \<subseteq> set (readdir dir) \<and>
             unlinked st = map (\<lambda>file. resolve h [recorded, file]) names \<and>
             remaining st = filter (\<lambda>entry. fst entry \<notin> set names) dir"
    if "writeBundle h (configure (newPlugin v opts) c) R fileNames dir = Inr st"
    for R fileNames dir st
    using writeBundle_unlinked [OF that] by (simp add: rec)
  from rec path clean show ?thesis
    unfolding Let_def d_def [symmetric] recorded_def [symmetric] manifestName_def [symmetric]
    by blast
qed

lemma writeBundle_configured:
  "writeBundle exampleHost (configure (newPlugin VitePlugin noOptions) (exampleConfig (Some ''dist/'')))
     (RegExp_literal minRegex False False) [''b.min.js''] exampleDirectory =
     Inr \<lparr>remaining = [(''b.min.js'', File []), (''c.txt'', File [])],
          consoleReport = ''a.min.js'' @ nl,
          unlinked = [''/work/dist/a.min.js'']\<rparr>"
  by code_simp

theorem recorded_outDir_witness:
  "outDir (configure (newPlugin VitePlugin noOptions) (exampleConfig (Some ''dist/''))) = ''dist'' \<and>
   outDir (configure (newPlugin VitePlugin noOptions) (exampleConfig (Some ''dist//''))) = ''dist/'' \<and>
   outDir (configure (newPlugin ShopifyVitePlugin noOptions) (exampleConfig None)) = ''./assets'' \<and>
   manifestPath exampleHost
     (configure (newPlugin VitePlugin noOptions) (exampleConfig (Some ''dist/''))) =
     ''/work/dist/_manifest.json'' \<and>
   writeBundle exampleHost (configure (newPlugin VitePlugin noOptions) (exampleConfig (Some ''dist/'')))
     (RegExp_literal minRegex False False) [''b.min.js''] exampleDirectory =
     Inr \<lparr>remaining = [(''b.min.js'', File []), (''c.txt'', File [])],
          consoleReport = ''a.min.js'' @ nl,
          unlinked = [''/work/dist/a.min.js'']\<rparr> \<and>
   (\<exists>names. set names \<subseteq> set (readdir exampleDirectory) \<and>
      [''/work/dist/a.min.js''] = map (\<lambda>file. resolve exampleHost [''dist'', file]) names \<and>
      [(''b.min.js'', File []), (''c.txt'', File [])] =
        filter (\<lambda>entry. fst entry \<notin> set names) exampleDirectory)"
proof -
  from recorded_outDir [of "exampleConfig (Some ''dist/'')" VitePlugin noOptions exampleHost]
  have a: "outDir (configure (newPlugin VitePlugin noOptions) (exampleConfig (Some ''dist/''))) = ''dist''"
    and b: "manifestPath exampleHost
         (configure (newPlugin VitePlugin noOptions) (exampleConfig (Some ''dist/''))) =
         resolve exampleHost [''dist'', ''_manifest.json'']"
    and c: "\<And>R fileNames dir st.
          writeBundle exampleHost (configure (newPlugin VitePlugin noOptions)
             (exampleConfig (Some ''dist/''))) R fileNames dir = Inr st \<Longrightarrow>
          (\<exists>names. set names \<subseteq> set (readdir dir) \<and>
             unlinked st = map (\<lambda>file. resolve exampleHost [''dist'', file]) names \<and>
             remaining st = filter (\<lambda>entry. fst entry \<notin> set names) dir)"
    by (simp_all add: Let_def exampleConfig_def endsWith_def suffix_def)
  from recorded_outDir [of "exampleConfig (Some ''dist//'')" VitePlugin noOptions exampleHost]
  have d: "outDir (configure (newPlugin VitePlugin noOptions) (exampleConfig (Some ''dist//''))) = ''dist/''"
    by (simp add: Let_def exampleConfig_def endsWith_def suffix_def)
  from recorded_outDir [of "exampleConfig None" ShopifyVitePlugin noOptions exampleHost]
  have e: "outDir (configure (newPlugin ShopifyVitePlugin noOptions) (exampleConfig None)) = ''./assets''"
    by (simp add: Let_def exampleConfig_def)
  from b have b': "manifestPath exampleHost
         (configure (newPlugin VitePlugin noOptions) (exampleConfig (Some ''dist/''))) =
         ''/work/dist/_manifest.json''"
    by (simp add: exampleHost_def)
  from c [OF writeBundle_configured] a b' d e writeBundle_configured show ?thesis by simp
qed

text \<open>
  The claim as stated fails for \<^verbatim>\<open>dist/index.mjs\<close>: a configured \<^verbatim>\<open>dist/\<close> is recorded
  with its slash.
\<close>

theorem outDir_keeps_slash:
  "outDir (configure (newPlugin ShopifyVitePlugin noOptions) (exampleConfig (Some ''dist/''))) = ''dist/'' \<and>
   outDir (configure (newPlugin ShopifyVitePlugin noOptions) (exampleConfig (Some ''dist/''))) \<noteq> ''dist''"
  by (simp add: configure_def configResolved_def config_manifest_def newPlugin_def exampleConfig_def)

end
